theory Spec2Isabelle
  imports Main
begin

section \<open>Paths: the part of \<^verbatim>\<open>pathlib.Path\<close> that \<^verbatim>\<open>kuling/find.py\<close> uses\<close>

text \<open>
  The module works on POSIX paths. A \<^verbatim>\<open>Path\<close> value is identified with its tuple of
  parts: two paths with the same parts are equal in Python, and every attribute read by
  the module (\<^verbatim>\<open>parts\<close>, \<^verbatim>\<open>name\<close>, \<^verbatim>\<open>parent\<close>, \<^verbatim>\<open>str\<close>) is a function of the parts.
  \<^verbatim>\<open>Path(".")\<close> and \<^verbatim>\<open>Path("")\<close> have the empty tuple of parts.
\<close>

type_synonym path = "string list"

text \<open>\<^verbatim>\<open>s.split("/")\<close>: the pieces between separators, empty pieces included.\<close>

fun split_sep :: "string \<Rightarrow> string list" where
  "split_sep [] = [[]]"
| "split_sep (c # cs) =
     (if c = CHR ''/'' then [] # split_sep cs
      else (case split_sep cs of
              [] \<Rightarrow> [[c]]
            | w # ws \<Rightarrow> (c # w) # ws))"

text \<open>
  \<^verbatim>\<open>splitroot\<close> of the POSIX flavour: a path that starts with exactly two slashes keeps
  the root \<^verbatim>\<open>//\<close>, any other number of leading slashes is the root \<^verbatim>\<open>/\<close>.
\<close>

definition splitroot :: "string \<Rightarrow> string \<times> string" where
  "splitroot p =
     (let n = length (takeWhile (\<lambda>c. c = CHR ''/'') p);
          rel = dropWhile (\<lambda>c. c = CHR ''/'') p
      in if n = 0 then ([], p)
         else if n = 2 then (''//'', rel)
         else (''/'', rel))"

text \<open>\<^verbatim>\<open>Path(s).parts\<close>: the root, if any, then the pieces that are neither empty nor \<^verbatim>\<open>.\<close>\<close>

definition Path :: "string \<Rightarrow> path" where
  "Path s =
     (case splitroot s of
        (root, rel) \<Rightarrow>
          (if root = [] then [] else [root]) @
          filter (\<lambda>x. x \<noteq> [] \<and> x \<noteq> ''.'') (split_sep rel))"

text \<open>\<^verbatim>\<open>os.path.join(a, *p)\<close>: an absolute segment discards what was joined before it.\<close>

definition join_step :: "string \<Rightarrow> string \<Rightarrow> string" where
  "join_step acc b =
     (if b \<noteq> [] \<and> hd b = CHR ''/'' then b
      else if acc = [] \<or> last acc = CHR ''/'' then acc @ b
      else acc @ ''/'' @ b)"

text \<open>\<^verbatim>\<open>Path(*segments)\<close>: no segment gives \<^verbatim>\<open>Path(".")\<close>; otherwise the joined string is parsed.\<close>

definition Path_of :: "string list \<Rightarrow> path" where
  "Path_of segments =
     (case segments of
        [] \<Rightarrow> []
      | a # p \<Rightarrow> Path (foldl join_step a p))"

definition is_root :: "string \<Rightarrow> bool" where
  "is_root x = (x = ''/'' \<or> x = ''//'')"

text \<open>\<^verbatim>\<open>"/".join(xs)\<close>\<close>

fun join_sep :: "string list \<Rightarrow> string" where
  "join_sep [] = []"
| "join_sep [x] = x"
| "join_sep (x # y # ys) = x @ ''/'' @ join_sep (y # ys)"

text \<open>\<^verbatim>\<open>str(path)\<close>: \<^verbatim>\<open>.\<close> for the empty path, the root glued to the joined tail otherwise.\<close>

definition str :: "path \<Rightarrow> string" where
  "str ps =
     (case ps of
        [] \<Rightarrow> ''.''
      | x # xs \<Rightarrow> (if is_root x then x @ join_sep xs else join_sep (x # xs)))"

text \<open>\<^verbatim>\<open>path.name\<close>: the last part, or the empty string for \<^verbatim>\<open>.\<close> and for a bare root.\<close>

definition name :: "path \<Rightarrow> string" where
  "name ps =
     (if ps = [] \<or> (length ps = 1 \<and> is_root (hd ps)) then [] else last ps)"

text \<open>\<^verbatim>\<open>path.parent\<close>: \<^verbatim>\<open>.\<close> and a bare root are their own parents.\<close>

definition parent :: "path \<Rightarrow> path" where
  "parent ps =
     (if ps = [] \<or> (length ps = 1 \<and> is_root (hd ps)) then ps else butlast ps)"

text \<open>\<^verbatim>\<open>path / segment\<close>\<close>

definition truediv :: "path \<Rightarrow> string \<Rightarrow> path" where
  "truediv ps seg = Path_of [str ps, seg]"

section \<open>The filesystem and the exceptions\<close>

text \<open>
  The state of the filesystem is the tree of its entries, keyed by the parts of their
  paths (the empty path is the current working directory), together with what the
  operating system adds to it: which paths are symbolic links (their entry is then the
  one the link leads to, or none for a dangling link), the longest name it accepts, the
  error, if any, with which it fails to look a path up (no search permission, an I/O
  error), and the error, if any, with which it refuses to create or remove the entry of a
  path (a read-only filesystem, a directory that may not be written). Paths with distinct
  parts are distinct keys: the model does not resolve \<^verbatim>\<open>..\<close>, and it does not relate a
  relative path to an absolute one.
\<close>

datatype node = File "nat list" | Dir | Other

datatype errno =
    ENOENT | ENOTDIR | EBADF | ELOOP | EEXIST | EISDIR
  | EACCES | EPERM | ENAMETOOLONG | EROFS | ENOSPC | EIO

text \<open>
  What the system may add to the errors that follow from the tree: permission denied,
  operation not permitted, read-only filesystem, no space left, I/O error, too many
  levels of symbolic links.
\<close>

datatype refusal =
    Refused_access | Refused_operation | Refused_read_only
  | Refused_no_space | Refused_io | Refused_loop

definition errno_of :: "refusal \<Rightarrow> errno" where
  "errno_of r =
     (case r of
        Refused_access \<Rightarrow> EACCES
      | Refused_operation \<Rightarrow> EPERM
      | Refused_read_only \<Rightarrow> EROFS
      | Refused_no_space \<Rightarrow> ENOSPC
      | Refused_io \<Rightarrow> EIO
      | Refused_loop \<Rightarrow> ELOOP)"

record filesystem =
  entries :: "path \<Rightarrow> node option"
  islink :: "path \<Rightarrow> bool"
  name_max :: nat
  lookup_denied :: "path \<Rightarrow> refusal option"
  write_denied :: "path \<Rightarrow> refusal option"

text \<open>
  \<^verbatim>\<open>os.stat(p)\<close>, following links: the segments are looked up one after the other from
  the working directory or the root. The lookup fails with \<^verbatim>\<open>ENOENT\<close> at a missing entry,
  with \<^verbatim>\<open>ENOTDIR\<close> below an entry that is no directory, with \<^verbatim>\<open>ENAMETOOLONG\<close> at a name
  longer than the filesystem accepts, and with the system's own error where it has one.
\<close>

fun walk :: "filesystem \<Rightarrow> path \<Rightarrow> string list \<Rightarrow> errno + node" where
  "walk fs cur [] =
     (case lookup_denied fs cur of
        Some r \<Rightarrow> Inl (errno_of r)
      | None \<Rightarrow> (case entries fs cur of None \<Rightarrow> Inl ENOENT | Some n \<Rightarrow> Inr n))"
| "walk fs cur (s # rest) =
     (case lookup_denied fs cur of
        Some r \<Rightarrow> Inl (errno_of r)
      | None \<Rightarrow>
          (case entries fs cur of
             None \<Rightarrow> Inl ENOENT
           | Some Dir \<Rightarrow>
               (if length s > name_max fs then Inl ENAMETOOLONG
                else walk fs (cur @ [s]) rest)
           | Some _ \<Rightarrow> Inl ENOTDIR))"

definition stat :: "filesystem \<Rightarrow> path \<Rightarrow> errno + node" where
  "stat fs p =
     (case p of
        [] \<Rightarrow> walk fs [] []
      | x # xs \<Rightarrow> (if is_root x then walk fs [x] xs else walk fs [] p))"

text \<open>The exception classes that can leave the three functions, with their messages.\<close>

datatype exn =
    FileNotFoundError string
  | NotADirectoryError string
  | IsADirectoryError string
  | FileExistsError string
  | PermissionError string
  | OSError string
  | NameError string
  | SameFileError string
  | SpecialFileError string
  | ValueError string

text \<open>
  The exception Python raises for a failed system call on a path: the subclass of
  \<^verbatim>\<open>OSError\<close> that belongs to the error number, with the message
  \<^verbatim>\<open>[Errno n] text: 'path'\<close>.
\<close>

definition quoted :: "path \<Rightarrow> string" where
  "quoted p = [CHR 0x27] @ str p @ [CHR 0x27]"

definition os_error :: "errno \<Rightarrow> path \<Rightarrow> exn" where
  "os_error e p =
     (case e of
        ENOENT \<Rightarrow> FileNotFoundError (''[Errno 2] No such file or directory: '' @ quoted p)
      | ENOTDIR \<Rightarrow> NotADirectoryError (''[Errno 20] Not a directory: '' @ quoted p)
      | EEXIST \<Rightarrow> FileExistsError (''[Errno 17] File exists: '' @ quoted p)
      | EISDIR \<Rightarrow> IsADirectoryError (''[Errno 21] Is a directory: '' @ quoted p)
      | EACCES \<Rightarrow> PermissionError (''[Errno 13] Permission denied: '' @ quoted p)
      | EPERM \<Rightarrow> PermissionError (''[Errno 1] Operation not permitted: '' @ quoted p)
      | EBADF \<Rightarrow> OSError (''[Errno 9] Bad file descriptor: '' @ quoted p)
      | ELOOP \<Rightarrow> OSError (''[Errno 40] Too many levels of symbolic links: '' @ quoted p)
      | ENAMETOOLONG \<Rightarrow> OSError (''[Errno 36] File name too long: '' @ quoted p)
      | EROFS \<Rightarrow> OSError (''[Errno 30] Read-only file system: '' @ quoted p)
      | ENOSPC \<Rightarrow> OSError (''[Errno 28] No space left on device: '' @ quoted p)
      | EIO \<Rightarrow> OSError (''[Errno 5] Input/output error: '' @ quoted p))"

text \<open>
  \<^verbatim>\<open>pathlib._ignore_error\<close>: the error numbers that \<^verbatim>\<open>exists\<close>, \<^verbatim>\<open>is_file\<close> and \<^verbatim>\<open>is_dir\<close>
  turn into the answer \<^verbatim>\<open>False\<close>. Every other failure of \<^verbatim>\<open>os.stat\<close> is re-raised.
\<close>

definition ignore_error :: "errno \<Rightarrow> bool" where
  "ignore_error e = (e = ENOENT \<or> e = ENOTDIR \<or> e = EBADF \<or> e = ELOOP)"

definition exists :: "filesystem \<Rightarrow> path \<Rightarrow> exn + bool" where
  "exists fs p =
     (case stat fs p of
        Inr _ \<Rightarrow> Inr True
      | Inl e \<Rightarrow> (if ignore_error e then Inr False else Inl (os_error e p)))"

definition is_file :: "filesystem \<Rightarrow> path \<Rightarrow> exn + bool" where
  "is_file fs p =
     (case stat fs p of
        Inr (File _) \<Rightarrow> Inr True
      | Inr _ \<Rightarrow> Inr False
      | Inl e \<Rightarrow> (if ignore_error e then Inr False else Inl (os_error e p)))"

definition is_dir :: "filesystem \<Rightarrow> path \<Rightarrow> exn + bool" where
  "is_dir fs p =
     (case stat fs p of
        Inr Dir \<Rightarrow> Inr True
      | Inr _ \<Rightarrow> Inr False
      | Inl e \<Rightarrow> (if ignore_error e then Inr False else Inl (os_error e p)))"

text \<open>
  \<^verbatim>\<open>Path.glob\<close> is the library's matching engine. It is a parameter of the model: given
  the filesystem, the base directory and the pattern string it answers with the matching
  paths in some order, or raises (\<^verbatim>\<open>ValueError\<close> for a pattern it rejects). Nothing is
  assumed about which paths it returns; it may return directories.
\<close>

type_synonym glob = "filesystem \<Rightarrow> path \<Rightarrow> string \<Rightarrow> exn + path list"

section \<open>\<^verbatim>\<open>find_matching_paths\<close>\<close>

definition WILDCARD_CHARS :: "char list" where
  "WILDCARD_CHARS = [CHR ''*'', CHR ''?'', CHR ''['']"

text \<open>\<^verbatim>\<open>any(c in part for c in WILDCARD_CHARS)\<close>\<close>

definition has_wildcard :: "string \<Rightarrow> bool" where
  "has_wildcard part = list_ex (\<lambda>c. c \<in> set part) WILDCARD_CHARS"

text \<open>\<^verbatim>\<open>[i for i, part in enumerate(parts) if any(...)]\<close>\<close>

definition wildcard_positions :: "path \<Rightarrow> nat list" where
  "wildcard_positions parts =
     map fst (filter (\<lambda>(i, part). has_wildcard part) (enumerate 0 parts))"

text \<open>
  The base directory, as lines 28 to 32 compute it from the parts and the position of the
  first wildcard: \<^verbatim>\<open>Path(*parts[:k]) if k > 0 else Path(".")\<close>.
\<close>

definition base_dir :: "path \<Rightarrow> nat \<Rightarrow> path" where
  "base_dir parts first_wildcard_position =
     (if first_wildcard_position > 0 then Path_of (take first_wildcard_position parts)
      else Path ''.'')"

text \<open>The pattern handed to glob, line 40: \<^verbatim>\<open>str(Path(*parts[k:]))\<close>.\<close>

definition glob_pattern :: "path \<Rightarrow> nat \<Rightarrow> string" where
  "glob_pattern parts first_wildcard_position =
     str (Path_of (drop first_wildcard_position parts))"

text \<open>
  The list comprehension of line 41, \<^verbatim>\<open>[f for f in ... if f.is_file()]\<close>: the paths are
  tested in the order of the enumeration, and the first test that raises ends it.
\<close>

fun filter_files :: "filesystem \<Rightarrow> path list \<Rightarrow> exn + path list" where
  "filter_files fs [] = Inr []"
| "filter_files fs (f # rest) =
     (case is_file fs f of
        Inl e \<Rightarrow> Inl e
      | Inr b \<Rightarrow>
          (case filter_files fs rest of
             Inl e \<Rightarrow> Inl e
           | Inr matches \<Rightarrow> Inr (if b then f # matches else matches)))"

text \<open>
  The value given to \<^verbatim>\<open>matches\<close>, or the exception raised on the way: line 19 for a
  pattern without wildcard, line 41 for one with.
\<close>

definition literal_matches :: "filesystem \<Rightarrow> path \<Rightarrow> exn + path list" where
  "literal_matches fs path =
     (case is_file fs path of
        Inl e \<Rightarrow> Inl e
      | Inr b \<Rightarrow> Inr (if b then [path] else []))"

definition glob_matches :: "glob \<Rightarrow> filesystem \<Rightarrow> path \<Rightarrow> string \<Rightarrow> exn + path list" where
  "glob_matches glob fs base pattern =
     (case glob fs base pattern of
        Inl e \<Rightarrow> Inl e
      | Inr found \<Rightarrow> filter_files fs found)"

text \<open>
  The function reads the filesystem and returns it as the second component, as the two
  mutating functions below do. The pattern is a string, for which \<^verbatim>\<open>Path(...)\<close> does not
  raise, so the \<^verbatim>\<open>except\<close> clause of lines 11 and 12 has no branch here.
\<close>

definition find_matching_paths ::
  "glob \<Rightarrow> string \<Rightarrow> bool \<Rightarrow> filesystem \<Rightarrow> (exn + path list) \<times> filesystem" where
  "find_matching_paths glob path_pattern raise_error_if_no_match fs =
     (let path = Path path_pattern in
      case wildcard_positions path of
        [] \<Rightarrow>
          (case literal_matches fs path of
             Inl e \<Rightarrow> (Inl e, fs)
           | Inr matches \<Rightarrow>
               (if raise_error_if_no_match \<and> matches = []
                then (Inl (FileNotFoundError (''No files found: '' @ path_pattern)), fs)
                else (Inr matches, fs)))
      | first_wildcard_position # _ \<Rightarrow>
          (let base = base_dir path first_wildcard_position in
           case exists fs base of
             Inl e \<Rightarrow> (Inl e, fs)
           | Inr there \<Rightarrow>
               (if \<not> there
                then (Inl (NotADirectoryError
                       (''Base directory does not exist: '' @ str base)), fs)
                else
                  (case is_dir fs base of
                     Inl e \<Rightarrow> (Inl e, fs)
                   | Inr dir \<Rightarrow>
                       (if \<not> dir
                        then (Inl (NotADirectoryError
                               (''Base path is not a directory: '' @ str base)), fs)
                        else
                          (case glob_matches glob fs base
                                  (glob_pattern path first_wildcard_position) of
                             Inl e \<Rightarrow> (Inl e, fs)
                           | Inr matches \<Rightarrow>
                               (if raise_error_if_no_match \<and> matches = []
                                then (Inl (FileNotFoundError
                                       (''No files found matching pattern: '' @
                                        path_pattern)), fs)
                                else (Inr matches, fs))))))))"

section \<open>The system calls under \<^verbatim>\<open>move_file\<close> and \<^verbatim>\<open>delete_file\<close>\<close>

text \<open>A call that fails leaves the filesystem as it was.\<close>

text \<open>
  \<^verbatim>\<open>os.mkdir(p)\<close>. The directory above must be a directory (its lookup failing fails the
  call with the same error number); an entry or a symbolic link at \<^verbatim>\<open>p\<close> is \<^verbatim>\<open>EEXIST\<close>,
  which takes precedence over a refusal to write; any other failure to look \<^verbatim>\<open>p\<close> up
  than its absence fails the call. \<^verbatim>\<open>.\<close> and the root are their own parents and cannot
  be created.
\<close>

definition os_mkdir :: "path \<Rightarrow> filesystem \<Rightarrow> exn + filesystem" where
  "os_mkdir p fs =
     (if parent p = p
      then (case stat fs p of
              Inr _ \<Rightarrow> Inl (os_error EEXIST p)
            | Inl e \<Rightarrow> Inl (os_error e p))
      else (case stat fs (parent p) of
              Inl e \<Rightarrow> Inl (os_error e p)
            | Inr Dir \<Rightarrow>
                (if islink fs p then Inl (os_error EEXIST p)
                 else (case stat fs p of
                         Inr _ \<Rightarrow> Inl (os_error EEXIST p)
                       | Inl e \<Rightarrow>
                           (if e \<noteq> ENOENT then Inl (os_error e p)
                            else (case write_denied fs p of
                                    Some d \<Rightarrow> Inl (os_error (errno_of d) p)
                                  | None \<Rightarrow> Inr (fs\<lparr>entries := (entries fs)(p \<mapsto> Dir)\<rparr>)))))
            | Inr _ \<Rightarrow> Inl (os_error ENOTDIR p)))"

text \<open>
  \<^verbatim>\<open>Path.mkdir(parents, exist_ok)\<close> as pathlib writes it: try \<^verbatim>\<open>os.mkdir\<close>; on
  \<^verbatim>\<open>FileNotFoundError\<close> with \<^verbatim>\<open>parents\<close> set (and a parent other than the path itself)
  create the parent with \<^verbatim>\<open>parents=True, exist_ok=True\<close>, then the path with
  \<^verbatim>\<open>parents=False\<close>; on any other \<^verbatim>\<open>OSError\<close> re-raise unless \<^verbatim>\<open>exist_ok\<close> is set and the
  path is a directory. The test \<^verbatim>\<open>is_dir()\<close> in the handler may raise in its turn.
\<close>

function mkdir :: "path \<Rightarrow> bool \<Rightarrow> bool \<Rightarrow> filesystem \<Rightarrow> (exn + unit) \<times> filesystem" where
  "mkdir p parents exist_ok fs =
     (case os_mkdir p fs of
        Inr fs' \<Rightarrow> (Inr (), fs')
      | Inl (FileNotFoundError m) \<Rightarrow>
          (if \<not> parents \<or> parent p = p then (Inl (FileNotFoundError m), fs)
           else (case mkdir (parent p) True True fs of
                   (Inl e, fs1) \<Rightarrow> (Inl e, fs1)
                 | (Inr _, fs1) \<Rightarrow> mkdir p False exist_ok fs1))
      | Inl e \<Rightarrow>
          (if \<not> exist_ok then (Inl e, fs)
           else (case is_dir fs p of
                   Inl e' \<Rightarrow> (Inl e', fs)
                 | Inr dir \<Rightarrow> (if \<not> dir then (Inl e, fs) else (Inr (), fs)))))"
  by pat_completeness auto
termination
  by (relation "measure (\<lambda>(p, parents, exist_ok, fs). 2 * length p + (if parents then 1 else 0))")
     (auto simp: parent_def split: if_splits)

text \<open>
  \<^verbatim>\<open>os.unlink(p)\<close>. A symbolic link is removed itself, whatever it points to. Otherwise
  the entry must be there; a refusal to write comes before the kind of the entry is
  looked at; a directory is \<^verbatim>\<open>EISDIR\<close>.
\<close>

definition os_unlink :: "path \<Rightarrow> filesystem \<Rightarrow> exn + filesystem" where
  "os_unlink p fs =
     (case (if islink fs p then Inr Other else stat fs p) of
        Inl e \<Rightarrow> Inl (os_error e p)
      | Inr n \<Rightarrow>
          (case write_denied fs p of
             Some d \<Rightarrow> Inl (os_error (errno_of d) p)
           | None \<Rightarrow>
               (if n = Dir then Inl (os_error EISDIR p)
                else Inr (fs\<lparr>entries := (entries fs)(p := None),
                             islink := (islink fs)(p := False)\<rparr>))))"

text \<open>\<^verbatim>\<open>Path.unlink()\<close> with \<^verbatim>\<open>missing_ok\<close> false: every error of \<^verbatim>\<open>os.unlink\<close> is raised.\<close>

definition unlink :: "path \<Rightarrow> filesystem \<Rightarrow> (exn + unit) \<times> filesystem" where
  "unlink p fs =
     (case os_unlink p fs of
        Inl e \<Rightarrow> (Inl e, fs)
      | Inr fs' \<Rightarrow> (Inr (), fs'))"

text \<open>
  \<^verbatim>\<open>shutil.copy2(src, dst)\<close>: a destination that is a directory receives the file under
  the source's name; source and destination must differ; the source must be a regular
  file; the destination must not be a directory and must lie in a directory.
\<close>

definition copy2 :: "path \<Rightarrow> path \<Rightarrow> filesystem \<Rightarrow> (exn + path) \<times> filesystem" where
  "copy2 src dst fs =
     (let dst = (if stat fs dst = Inr Dir then truediv dst (name src) else dst) in
      case stat fs src of
        Inl e \<Rightarrow> (Inl (os_error e src), fs)
      | Inr Dir \<Rightarrow> (Inl (os_error EISDIR src), fs)
      | Inr Other \<Rightarrow> (Inl (SpecialFileError (str src)), fs)
      | Inr (File bytes) \<Rightarrow>
          (if src = dst then (Inl (SameFileError (str src)), fs)
           else (case stat fs dst of
                   Inr Dir \<Rightarrow> (Inl (os_error EISDIR dst), fs)
                 | Inr Other \<Rightarrow> (Inr dst, fs)
                 | Inr (File _) \<Rightarrow>
                     (case write_denied fs dst of
                        Some d \<Rightarrow> (Inl (os_error (errno_of d) dst), fs)
                      | None \<Rightarrow> (Inr dst, fs\<lparr>entries := (entries fs)(dst \<mapsto> File bytes)\<rparr>))
                 | Inl e \<Rightarrow>
                     (if e \<noteq> ENOENT then (Inl (os_error e dst), fs)
                      else (case write_denied fs dst of
                              Some d \<Rightarrow> (Inl (os_error (errno_of d) dst), fs)
                            | None \<Rightarrow>
                                (Inr dst, fs\<lparr>entries := (entries fs)(dst \<mapsto> File bytes)\<rparr>))))))"

section \<open>\<^verbatim>\<open>move_file\<close> and \<^verbatim>\<open>delete_file\<close>\<close>

text \<open>
  The names bound at module level in \<^verbatim>\<open>kuling/find.py\<close>: the one import of line 1
  (\<^verbatim>\<open>from pathlib import Path\<close>), the constant of line 3 and the three functions. A global
  name that is read without being bound here (and is no builtin) raises \<^verbatim>\<open>NameError\<close>.
\<close>

definition module_globals :: "string list" where
  "module_globals =
     [''Path'', ''WILDCARD_CHARS'', ''find_matching_paths'', ''move_file'', ''delete_file'']"

text \<open>
  Line 64 reads the global \<^verbatim>\<open>shutil\<close> before anything is copied; the exception leaves
  the directories that line 63 created.
\<close>

definition move_file ::
  "string \<Rightarrow> string \<Rightarrow> bool \<Rightarrow> filesystem \<Rightarrow> (exn + path) \<times> filesystem" where
  "move_file source_arg destination_arg delete_original fs =
     (let source = Path source_arg;
          destination = Path destination_arg
      in case exists fs source of
           Inl e \<Rightarrow> (Inl e, fs)
         | Inr there \<Rightarrow>
             (if \<not> there
              then (Inl (FileNotFoundError (''File not found: '' @ str source)), fs)
              else
                (case is_dir fs destination of
                   Inl e \<Rightarrow> (Inl e, fs)
                 | Inr dir \<Rightarrow>
                     (let destination =
                            (if dir then truediv destination (name source) else destination)
                      in case mkdir (parent destination) True True fs of
                           (Inl e, fs1) \<Rightarrow> (Inl e, fs1)
                         | (Inr _, fs1) \<Rightarrow>
                             (if ''shutil'' \<notin> set module_globals
                              then (Inl (NameError ''name 'shutil' is not defined''), fs1)
                              else
                                (case copy2 source destination fs1 of
                                   (Inl e, fs2) \<Rightarrow> (Inl e, fs2)
                                 | (Inr _, fs2) \<Rightarrow>
                                     (if delete_original
                                      then (case unlink source fs2 of
                                              (Inl e, fs3) \<Rightarrow> (Inl e, fs3)
                                            | (Inr _, fs3) \<Rightarrow> (Inr destination, fs3))
                                      else (Inr destination, fs2))))))))"

definition delete_file :: "string \<Rightarrow> filesystem \<Rightarrow> (exn + bool) \<times> filesystem" where
  "delete_file path_arg fs =
     (let path = Path path_arg
      in case exists fs path of
           Inl e \<Rightarrow> (Inl e, fs)
         | Inr there \<Rightarrow>
             (if there
              then (case unlink path fs of
                      (Inl e, fs1) \<Rightarrow> (Inl e, fs1)
                    | (Inr _, fs1) \<Rightarrow> (Inr True, fs1))
              else (Inr False, fs)))"

section \<open>Auxiliary notions for the proofs\<close>

text \<open>
  A plain segment is what \<^verbatim>\<open>Path\<close> keeps of the pieces between separators. A tuple of
  parts is normal when only its first part may be a root and all others are plain.
\<close>

definition plain :: "string \<Rightarrow> bool" where
  "plain seg = (seg \<noteq> [] \<and> seg \<noteq> ''.'' \<and> CHR ''/'' \<notin> set seg)"

definition normal :: "path \<Rightarrow> bool" where
  "normal ps = (case ps of [] \<Rightarrow> True | x # xs \<Rightarrow> (is_root x \<or> plain x) \<and> list_all plain xs)"

text \<open>
  The second filesystem has what the first has, and maybe directories where the first
  had nothing: no entry is removed or changed, and what the system adds is the same.
\<close>

definition only_new_dirs :: "filesystem \<Rightarrow> filesystem \<Rightarrow> bool" where
  "only_new_dirs fs fs' =
     (islink fs' = islink fs \<and> name_max fs' = name_max fs \<and>
      lookup_denied fs' = lookup_denied fs \<and> write_denied fs' = write_denied fs \<and>
      (\<forall>q. entries fs' q = entries fs q \<or> (entries fs q = None \<and> entries fs' q = Some Dir)))"

text \<open>
  A filesystem that holds a given tree and nothing else: no symbolic links, names of at
  most 255 characters, no lookup that the system fails and no write that it refuses.
\<close>

definition tree_fs :: "(path \<Rightarrow> node option) \<Rightarrow> filesystem" where
  "tree_fs t =
     \<lparr>entries = t, islink = (\<lambda>p. False), name_max = 255,
      lookup_denied = (\<lambda>p. None), write_denied = (\<lambda>p. None)\<rparr>"

text \<open>
  A small tree for the examples: a file \<^verbatim>\<open>notes.txt\<close> and a directory \<^verbatim>\<open>logs/2024\<close>
  holding two log files and a directory whose name ends in \<^verbatim>\<open>.log\<close>; and what a glob
  engine answers on it for \<^verbatim>\<open>*.log\<close> under \<^verbatim>\<open>logs/2024\<close>, in two enumeration orders.
\<close>

definition fs_logs :: filesystem where
  "fs_logs = tree_fs
     [[] \<mapsto> Dir,
      [''notes.txt''] \<mapsto> File [110, 111],
      [''logs''] \<mapsto> Dir,
      [''logs'', ''2024''] \<mapsto> Dir,
      [''logs'', ''2024'', ''app.log''] \<mapsto> File [97],
      [''logs'', ''2024'', ''error.log''] \<mapsto> File [],
      [''logs'', ''2024'', ''old.log''] \<mapsto> Dir]"

definition glob_logs :: glob where
  "glob_logs fs base pat =
     (if base = [''logs'', ''2024''] \<and> pat = ''*.log''
      then Inr [[''logs'', ''2024'', ''app.log''],
                [''logs'', ''2024'', ''old.log''],
                [''logs'', ''2024'', ''error.log'']]
      else Inr [])"

definition glob_logs_reordered :: glob where
  "glob_logs_reordered fs base pat =
     (if base = [''logs'', ''2024''] \<and> pat = ''*.log''
      then Inr [[''logs'', ''2024'', ''error.log''],
                [''logs'', ''2024'', ''app.log''],
                [''logs'', ''2024'', ''old.log'']]
      else Inr [])"

text \<open>
  A tree for the move and delete examples: the file \<^verbatim>\<open>a/b/file.txt\<close> with two bytes, and
  a regular file \<^verbatim>\<open>taken\<close> in the working directory; nothing is called \<^verbatim>\<open>x\<close>.
\<close>

definition fs_move :: filesystem where
  "fs_move = tree_fs
     [[] \<mapsto> Dir,
      [''a''] \<mapsto> Dir,
      [''a'', ''b''] \<mapsto> Dir,
      [''a'', ''b'', ''file.txt''] \<mapsto> File [104, 105],
      [''taken''] \<mapsto> File []]"

text \<open>The same tree where the system refuses every removal and creation.\<close>

definition fs_read_only :: filesystem where
  "fs_read_only = fs_move\<lparr>write_denied := (\<lambda>p. Some Refused_access)\<rparr>"

text \<open>A name of 256 characters, one more than these filesystems accept.\<close>

definition long_name :: string where
  "long_name = replicate 256 (CHR ''a'')"

declare mkdir.simps [simp del]

section \<open>Parsing and rebuilding paths\<close>

lemma split_sep_not_Nil: "split_sep s \<noteq> []"
  by (induction s) (auto split: list.splits)

lemma split_sep_no_sep: "w \<in> set (split_sep s) \<Longrightarrow> CHR ''/'' \<notin> set w"
proof (induction s arbitrary: w)
  case Nil
  then show ?case by simp
next
  case (Cons c cs)
  show ?case
  proof (cases "c = CHR ''/''")
    case True
    with Cons show ?thesis by auto
  next
    case False
    obtain v vs where vs: "split_sep cs = v # vs"
      using split_sep_not_Nil by (cases "split_sep cs") auto
    with False Cons.prems have "w = c # v \<or> w \<in> set vs" by simp
    moreover have "CHR ''/'' \<notin> set v" using Cons.IH vs by simp
    moreover have "\<And>u. u \<in> set vs \<Longrightarrow> CHR ''/'' \<notin> set u" using Cons.IH vs by simp
    ultimately show ?thesis using False by auto
  qed
qed

lemma filter_split_plain: "list_all plain (filter (\<lambda>x. x \<noteq> [] \<and> x \<noteq> ''.'') (split_sep s))"
  by (auto simp: list_all_iff plain_def dest: split_sep_no_sep)

lemma Path_normal: "normal (Path s)"
  using filter_split_plain [of "dropWhile (\<lambda>c. c = CHR ''/'') s"] filter_split_plain [of s]
  by (auto simp: Path_def splitroot_def normal_def Let_def is_root_def split: list.splits)

lemma split_sep_append_plain:
  "CHR ''/'' \<notin> set a \<Longrightarrow> split_sep (a @ CHR ''/'' # s) = a # split_sep s"
  by (induction a) (auto split: list.splits)

lemma split_sep_plain: "CHR ''/'' \<notin> set a \<Longrightarrow> split_sep a = [a]"
  by (induction a) (auto split: list.splits)

lemma split_sep_joined:
  "CHR ''/'' \<notin> set a \<Longrightarrow> list_all plain p \<Longrightarrow>
   split_sep (a @ concat (map (\<lambda>y. CHR ''/'' # y) p)) = a # p"
proof (induction p arbitrary: a)
  case Nil
  then show ?case by (simp add: split_sep_plain)
next
  case (Cons b p)
  then have "split_sep (b @ concat (map (\<lambda>y. CHR ''/'' # y) p)) = b # p"
    by (simp add: plain_def)
  then show ?case using Cons.prems by (simp add: split_sep_append_plain)
qed

lemma foldl_join_plain:
  "list_all plain p \<Longrightarrow> acc \<noteq> [] \<Longrightarrow> last acc \<noteq> CHR ''/'' \<Longrightarrow>
   foldl join_step acc p = acc @ concat (map (\<lambda>y. CHR ''/'' # y) p)"
proof (induction p arbitrary: acc)
  case Nil
  then show ?case by simp
next
  case (Cons b p)
  from Cons.prems have b: "b \<noteq> []" "CHR ''/'' \<notin> set b" by (auto simp: plain_def)
  then have hd: "hd b \<noteq> CHR ''/''" by (cases b) auto
  have step: "join_step acc b = acc @ CHR ''/'' # b"
    using Cons.prems hd by (simp add: join_step_def)
  have "last (acc @ CHR ''/'' # b) \<noteq> CHR ''/''" using b by (metis last_appendR last_in_set list.distinct(1) last_ConsR)
  then show ?case using Cons step by simp
qed

lemma filter_plain_id: "list_all plain xs \<Longrightarrow> filter (\<lambda>x. x \<noteq> [] \<and> x \<noteq> ''.'') xs = xs"
  by (induction xs) (auto simp: plain_def)

lemma Path_plain_joined:
  assumes "plain a" "list_all plain p"
  shows "Path (a @ concat (map (\<lambda>y. CHR ''/'' # y) p)) = a # p"
proof -
  obtain c cs where a: "a = c # cs" "c \<noteq> CHR ''/''" "CHR ''/'' \<notin> set a"
    using assms(1) by (cases a) (auto simp: plain_def)
  have "splitroot (a @ concat (map (\<lambda>y. CHR ''/'' # y) p)) = ([], a @ concat (map (\<lambda>y. CHR ''/'' # y) p))"
    using a by (simp add: splitroot_def)
  moreover have "split_sep (a @ concat (map (\<lambda>y. CHR ''/'' # y) p)) = a # p"
    using a assms(2) by (simp add: split_sep_joined)
  ultimately show ?thesis
    using assms filter_plain_id [of "a # p"] by (simp add: Path_def)
qed

lemma Path_root_joined:
  assumes "is_root r" "list_all plain p"
  shows "Path (r @ join_sep p) = r # p"
proof (cases p)
  case Nil
  then show ?thesis using assms(1) by (auto simp: is_root_def Path_def splitroot_def)
next
  case (Cons b q)
  then have pl: "plain b" "list_all plain q" using assms(2) by auto
  then obtain c cs where b: "b = c # cs" "c \<noteq> CHR ''/''" "CHR ''/'' \<notin> set b"
    by (cases b) (auto simp: plain_def)
  have js: "join_sep (b # q) = b @ concat (map (\<lambda>y. CHR ''/'' # y) q)" for b
    by (induction q arbitrary: b) auto
  have sp: "split_sep (b @ concat (map (\<lambda>y. CHR ''/'' # y) q)) = b # q"
    using b pl by (simp add: split_sep_joined)
  have "splitroot (r @ join_sep p) = (r, join_sep p)"
    using assms(1) b Cons by (auto simp: is_root_def splitroot_def js)
  then show ?thesis
    using assms filter_plain_id [of "b # q"] pl sp Cons by (auto simp: Path_def js is_root_def)
qed

lemma join_sep_concat: "join_sep (b # q) = b @ concat (map (\<lambda>y. CHR ''/'' # y) q)"
  by (induction q arbitrary: b) auto

lemma foldl_join_root:
  assumes "is_root r" "list_all plain p"
  shows "foldl join_step r p = r @ join_sep p"
proof (cases p)
  case Nil
  then show ?thesis by simp
next
  case (Cons b q)
  then have pl: "plain b" "list_all plain q" using assms(2) by auto
  then have b: "b \<noteq> []" "CHR ''/'' \<notin> set b" by (auto simp: plain_def)
  then have hd: "hd b \<noteq> CHR ''/''" by (cases b) auto
  have step: "join_step r b = r @ b"
    using assms(1) hd by (auto simp: join_step_def is_root_def)
  have "last (r @ b) \<noteq> CHR ''/''" using b by (metis last_appendR last_in_set)
  then have "foldl join_step (r @ b) q = (r @ b) @ concat (map (\<lambda>y. CHR ''/'' # y) q)"
    using pl b by (intro foldl_join_plain) auto
  then show ?thesis using Cons step by (simp add: join_sep_concat)
qed

lemma Path_of_normal: "normal ps \<Longrightarrow> Path_of ps = ps"
proof (cases ps)
  case Nil
  then show ?thesis by (simp add: Path_of_def)
next
  case (Cons a p)
  assume "normal ps"
  with Cons have n: "is_root a \<or> plain a" "list_all plain p" by (auto simp: normal_def)
  show ?thesis
  proof (cases "is_root a")
    case True
    then show ?thesis using n Cons by (simp add: Path_of_def foldl_join_root Path_root_joined)
  next
    case False
    with n have pa: "plain a" by simp
    then have "a \<noteq> []" "last a \<noteq> CHR ''/''" by (auto simp: plain_def) (metis last_in_set)
    then have "foldl join_step a p = a @ concat (map (\<lambda>y. CHR ''/'' # y) p)"
      using n by (intro foldl_join_plain) auto
    then show ?thesis using Cons pa n by (simp add: Path_of_def Path_plain_joined)
  qed
qed

lemma normal_take: "normal ps \<Longrightarrow> normal (take k ps)"
  by (cases ps; cases k) (auto simp: normal_def list_all_iff dest: in_set_takeD)

lemma enumerate_filter_Nil:
  "(filter (\<lambda>(i, part). P part) (enumerate n xs) = []) = (\<forall>x\<in>set xs. \<not> P x)"
  by (induction xs arbitrary: n) auto

lemma enumerate_filter_hd:
  "map fst (filter (\<lambda>(i, part). P part) (enumerate n xs)) = k # ks \<Longrightarrow>
   k = n + length (takeWhile (\<lambda>x. \<not> P x) xs)"
proof (induction xs arbitrary: n)
  case Nil
  then show ?case by simp
next
  case (Cons x xs)
  show ?case
  proof (cases "P x")
    case True
    with Cons.prems show ?thesis by simp
  next
    case False
    with Cons.prems have "map fst (filter (\<lambda>(i, part). P part) (enumerate (Suc n) xs)) = k # ks"
      by simp
    from Cons.IH [OF this] False show ?thesis by simp
  qed
qed

lemma wildcard_positions_Nil:
  "(wildcard_positions ps = []) = (\<forall>seg\<in>set ps. \<not> has_wildcard seg)"
  by (simp add: wildcard_positions_def enumerate_filter_Nil)

lemma wildcard_positions_hd:
  "wildcard_positions ps = k # ks \<Longrightarrow> k = length (takeWhile (\<lambda>seg. \<not> has_wildcard seg) ps)"
  using enumerate_filter_hd [of has_wildcard 0 ps k ks] by (simp add: wildcard_positions_def)

lemma Path_dot: "Path ''.'' = []"
  by (simp add: Path_def splitroot_def)

lemma base_dir_Path:
  "base_dir (Path s) k = take k (Path s)"
  using Path_of_normal [OF normal_take [OF Path_normal, of k s]]
  by (simp add: base_dir_def Path_dot)

lemma base_dir_prefix:
  assumes "wildcard_positions (Path s) = k # ks"
  shows "base_dir (Path s) k = takeWhile (\<lambda>seg. \<not> has_wildcard seg) (Path s)"
  using wildcard_positions_hd [OF assms] takeWhile_eq_take [of "\<lambda>seg. \<not> has_wildcard seg" "Path s"]
  by (simp add: base_dir_Path)

lemma has_wildcard_iff: "has_wildcard seg = (CHR ''*'' \<in> set seg \<or> CHR ''?'' \<in> set seg \<or> CHR ''['' \<in> set seg)"
  by (simp add: has_wildcard_def WILDCARD_CHARS_def)

lemma root_no_wildcard: "is_root x \<Longrightarrow> \<not> has_wildcard x"
  by (auto simp: is_root_def has_wildcard_iff)

section \<open>Unfolding \<^verbatim>\<open>find_matching_paths\<close>\<close>

lemma is_dir_exists: "is_dir fs p = Inr True \<Longrightarrow> exists fs p = Inr True"
  by (auto simp: is_dir_def exists_def split: sum.splits node.splits if_splits)

lemma is_dir_not_file: "is_dir fs p = Inr True \<Longrightarrow> is_file fs p = Inr False"
  by (auto simp: is_dir_def is_file_def split: sum.splits node.splits if_splits)

lemma filter_files_Inr:
  "filter_files fs xs = Inr ms \<Longrightarrow> ms = filter (\<lambda>p. is_file fs p = Inr True) xs"
  by (induction xs arbitrary: ms) (auto split: sum.splits if_splits)

lemma filter_files_Inl_iff:
  "(\<exists>e. filter_files fs xs = Inl e) = (\<exists>p\<in>set xs. \<exists>e. is_file fs p = Inl e)"
  by (induction xs) (auto split: sum.splits)

lemma filter_files_total:
  "\<forall>p\<in>set xs. \<exists>b. is_file fs p = Inr b \<Longrightarrow>
   filter_files fs xs = Inr (filter (\<lambda>p. is_file fs p = Inr True) xs)"
  by (induction xs) (auto split: sum.splits)

lemma filter_files_Inl:
  "filter_files fs xs = Inl e \<Longrightarrow> \<exists>p\<in>set xs. is_file fs p = Inl e"
  by (induction xs) (auto split: sum.splits)

lemma filter_files_Inr_total:
  "filter_files fs xs = Inr ms \<Longrightarrow> \<forall>p\<in>set xs. \<exists>b. is_file fs p = Inr b"
  by (induction xs arbitrary: ms) (auto split: sum.splits)

lemma find_snd: "snd (find_matching_paths glob pattern r fs) = fs"
  by (simp add: find_matching_paths_def Let_def split: list.splits sum.splits)

lemma find_literal:
  assumes "\<forall>seg\<in>set (Path pattern). \<not> has_wildcard seg"
  shows "find_matching_paths glob pattern r fs =
         (case literal_matches fs (Path pattern) of
            Inl e \<Rightarrow> (Inl e, fs)
          | Inr matches \<Rightarrow>
              (if r \<and> matches = []
               then (Inl (FileNotFoundError (''No files found: '' @ pattern)), fs)
               else (Inr matches, fs)))"
  using assms wildcard_positions_Nil [of "Path pattern"]
  by (simp add: find_matching_paths_def)

lemma find_wildcard:
  assumes "wildcard_positions (Path pattern) = k # ks"
  shows "find_matching_paths glob pattern r fs =
         (case exists fs (base_dir (Path pattern) k) of
            Inl e \<Rightarrow> (Inl e, fs)
          | Inr there \<Rightarrow>
              (if \<not> there
               then (Inl (NotADirectoryError
                      (''Base directory does not exist: '' @
                       str (base_dir (Path pattern) k))), fs)
               else
                 (case is_dir fs (base_dir (Path pattern) k) of
                    Inl e \<Rightarrow> (Inl e, fs)
                  | Inr dir \<Rightarrow>
                      (if \<not> dir
                       then (Inl (NotADirectoryError
                              (''Base path is not a directory: '' @
                               str (base_dir (Path pattern) k))), fs)
                       else
                         (case glob_matches glob fs (base_dir (Path pattern) k)
                                 (glob_pattern (Path pattern) k) of
                            Inl e \<Rightarrow> (Inl e, fs)
                          | Inr matches \<Rightarrow>
                              (if r \<and> matches = []
                               then (Inl (FileNotFoundError
                                      (''No files found matching pattern: '' @ pattern)), fs)
                               else (Inr matches, fs)))))))"
  using assms by (simp add: find_matching_paths_def Let_def)

lemma find_valid_base:
  assumes "wildcard_positions (Path pattern) = k # ks"
      and "is_dir fs (base_dir (Path pattern) k) = Inr True"
  shows "find_matching_paths glob pattern r fs =
         (case glob_matches glob fs (base_dir (Path pattern) k)
                 (glob_pattern (Path pattern) k) of
            Inl e \<Rightarrow> (Inl e, fs)
          | Inr matches \<Rightarrow>
              (if r \<and> matches = []
               then (Inl (FileNotFoundError
                      (''No files found matching pattern: '' @ pattern)), fs)
               else (Inr matches, fs)))"
  using assms(2) is_dir_exists [OF assms(2)]
  by (simp add: find_wildcard [OF assms(1)])

lemma wildcard_positions_Cons:
  assumes "\<exists>seg\<in>set ps. has_wildcard seg"
  obtains k ks where "wildcard_positions ps = k # ks"
  using assms wildcard_positions_Nil [of ps] by (cases "wildcard_positions ps") auto

lemma first_wildcard_index:
  assumes "wildcard_positions ps = k # ks"
  shows "k < length ps \<and> has_wildcard (ps ! k) \<and> (\<forall>j<k. \<not> has_wildcard (ps ! j))"
proof -
  let ?P = "\<lambda>seg. \<not> has_wildcard seg"
  have k: "k = length (takeWhile ?P ps)"
    using wildcard_positions_hd [OF assms] .
  have "\<not> (\<forall>seg\<in>set ps. ?P seg)"
    using assms wildcard_positions_Nil [of ps] by auto
  then have "takeWhile ?P ps \<noteq> ps"
    by (simp add: takeWhile_eq_all_conv)
  then have lt: "k < length ps"
    using k length_takeWhile_le [of ?P ps] takeWhile_eq_take [of ?P ps] by (metis le_neq_implies_less take_all)
  have at: "has_wildcard (ps ! k)"
    using nth_length_takeWhile [of ?P ps] lt k by simp
  have "\<not> has_wildcard (ps ! j)" if "j < k" for j
  proof -
    have "takeWhile ?P ps ! j = ps ! j" using that k by (simp add: takeWhile_nth)
    moreover have "takeWhile ?P ps ! j \<in> set (takeWhile ?P ps)" using that k by simp
    ultimately show ?thesis using set_takeWhileD by fastforce
  qed
  with lt at show ?thesis by simp
qed

lemma normal_nth_plain:
  assumes "normal ps" "k < length ps" "\<not> is_root (ps ! k)"
  shows "list_all plain (drop k ps)"
proof (cases ps)
  case Nil
  with assms show ?thesis by simp
next
  case (Cons x xs)
  show ?thesis
  proof (cases k)
    case 0
    with assms Cons show ?thesis by (auto simp: normal_def)
  next
    case (Suc n)
    with assms Cons have "list_all plain xs" by (simp add: normal_def)
    then have "list_all plain (drop n xs)" by (auto simp: list_all_iff dest: in_set_dropD)
    with Suc Cons show ?thesis by simp
  qed
qed

lemma glob_pattern_joined:
  assumes "wildcard_positions (Path s) = k # ks"
  shows "glob_pattern (Path s) k = join_sep (drop k (Path s))"
proof -
  from first_wildcard_index [OF assms]
  have lt: "k < length (Path s)" and hw: "has_wildcard (Path s ! k)" by simp_all
  from hw have nr: "\<not> is_root (Path s ! k)" using root_no_wildcard by blast
  have pl: "list_all plain (drop k (Path s))"
    using normal_nth_plain [OF Path_normal lt nr] .
  obtain x xs where d: "drop k (Path s) = x # xs" "x = Path s ! k"
    using lt by (metis Cons_nth_drop_Suc)
  then have "normal (drop k (Path s))" using pl by (simp add: normal_def)
  then have "Path_of (drop k (Path s)) = drop k (Path s)" by (rule Path_of_normal)
  then show ?thesis using d nr by (simp add: glob_pattern_def str_def)
qed

lemma glob_matches_rel:
  assumes "rel_sum (=) (\<lambda>xs ys. set xs = set ys) (glob1 fs b pat) (glob2 fs b pat)"
  shows "rel_sum (\<lambda>e1 e2. e1 = e2 \<or>
              (\<exists>base pat found p q. glob1 fs base pat = Inr found \<and>
                 p \<in> set found \<and> q \<in> set found \<and>
                 is_file fs p = Inl e1 \<and> is_file fs q = Inl e2))
           (\<lambda>xs ys. set xs = set ys)
           (glob_matches glob1 fs b pat) (glob_matches glob2 fs b pat)"
proof (cases "glob1 fs b pat")
  case (Inl e)
  with assms have "glob2 fs b pat = Inl e" by (cases "glob2 fs b pat") auto
  with Inl show ?thesis by (simp add: glob_matches_def)
next
  case (Inr xs)
  with assms obtain ys where ys: "glob2 fs b pat = Inr ys" "set xs = set ys"
    by (cases "glob2 fs b pat") auto
  show ?thesis
  proof (cases "filter_files fs xs")
    case (Inl e1)
    from filter_files_Inl [OF this] obtain p where p: "p \<in> set xs" "is_file fs p = Inl e1"
      by blast
    with ys(2) have "\<exists>q\<in>set ys. \<exists>e. is_file fs q = Inl e" by auto
    then obtain e2 where e2: "filter_files fs ys = Inl e2"
      using filter_files_Inl_iff [of fs ys] by blast
    from filter_files_Inl [OF e2] ys(2) obtain q where q: "q \<in> set xs" "is_file fs q = Inl e2"
      by blast
    from p q Inr have "\<exists>base pat found p q. glob1 fs base pat = Inr found \<and>
                 p \<in> set found \<and> q \<in> set found \<and>
                 is_file fs p = Inl e1 \<and> is_file fs q = Inl e2"
      by blast
    with Inl e2 Inr ys(1) show ?thesis by (simp add: glob_matches_def)
  next
    case (Inr ms)
    from filter_files_Inr_total [OF this] ys(2)
    have "\<forall>q\<in>set ys. \<exists>b. is_file fs q = Inr b" by simp
    from filter_files_total [OF this] filter_files_Inr [OF Inr] ys \<open>glob1 fs b pat = Inr xs\<close> Inr
    show ?thesis by (simp add: glob_matches_def)
  qed
qed

lemma policy_rel:
  assumes "rel_sum E (\<lambda>xs ys. set xs = set ys) c1 c2" and "\<And>e. E e e"
  shows "rel_sum E (\<lambda>xs ys. set xs = set ys)
           (fst (case c1 of Inl e \<Rightarrow> (Inl e, fs)
                 | Inr ms \<Rightarrow> if r \<and> ms = [] then (Inl x, fs) else (Inr ms, fs)))
           (fst (case c2 of Inl e \<Rightarrow> (Inl e, fs)
                 | Inr ms \<Rightarrow> if r \<and> ms = [] then (Inl x, fs) else (Inr ms, fs)))"
  using assms by (cases c1; cases c2) auto

section \<open>Properties of \<^verbatim>\<open>find_matching_paths\<close>\<close>

text \<open>
  C4, as stated, fails where the lookup of the base fails for another reason than its
  absence. A base whose name has 256 characters does not exist, yet \<^verbatim>\<open>exists()\<close>
  does not answer false for it: \<^verbatim>\<open>os.stat\<close> fails with \<^verbatim>\<open>ENAMETOOLONG\<close>, which pathlib
  re-raises, and the call ends with that \<^verbatim>\<open>OSError\<close>, not with the base-not-found error.
\<close>

theorem base_lookup_fails_not_base_not_found:
  "Path (long_name @ ''/*.txt'') = [long_name, ''*.txt''] \<and>
   \<not> has_wildcard long_name \<and> has_wildcard ''*.txt'' \<and>
   entries fs_logs [long_name] = None \<and>
   stat fs_logs [long_name] = Inl ENAMETOOLONG \<and>
   fst (find_matching_paths glob_logs (long_name @ ''/*.txt'') False fs_logs) =
     Inl (OSError (''[Errno 36] File name too long: '' @ quoted [long_name]))"
  by code_simp

text \<open>
  C4, amended. For every pattern with a wildcard segment, whatever the value of
  \<^verbatim>\<open>raise_error_if_no_match\<close> and whatever glob would answer: if \<^verbatim>\<open>exists()\<close> answers
  false for the path made of the segments before the first wildcard segment, the call
  fails with \<^verbatim>\<open>NotADirectoryError\<close> and the message
  \<^verbatim>\<open>Base directory does not exist: <base>\<close> (the spec's BaseNotFound); if \<^verbatim>\<open>exists()\<close>
  raises, the call raises that exception. The filesystem is left as it was.
\<close>

theorem base_not_found_always_raised:
  assumes "\<exists>seg\<in>set (Path pattern). has_wildcard seg"
  shows "(exists fs (takeWhile (\<lambda>seg. \<not> has_wildcard seg) (Path pattern)) = Inr False \<longrightarrow>
            find_matching_paths glob pattern raise_error_if_no_match fs =
              (Inl (NotADirectoryError
                     (''Base directory does not exist: '' @
                      str (takeWhile (\<lambda>seg. \<not> has_wildcard seg) (Path pattern)))), fs)) \<and>
         (\<forall>e. exists fs (takeWhile (\<lambda>seg. \<not> has_wildcard seg) (Path pattern)) = Inl e \<longrightarrow>
            find_matching_paths glob pattern raise_error_if_no_match fs = (Inl e, fs))"
proof -
  from assms obtain k ks where wp: "wildcard_positions (Path pattern) = k # ks"
    by (rule wildcard_positions_Cons)
  show ?thesis
    by (simp add: find_wildcard [OF wp] base_dir_prefix [OF wp])
qed

theorem base_not_found_always_raised_witness:
  "find_matching_paths glob_logs ''missing/*.txt'' False fs_logs =
     (Inl (NotADirectoryError ''Base directory does not exist: missing''), fs_logs) \<and>
   find_matching_paths glob_logs ''missing/*.txt'' True fs_logs =
     (Inl (NotADirectoryError ''Base directory does not exist: missing''), fs_logs) \<and>
   find_matching_paths glob_logs (long_name @ ''/*.txt'') True fs_logs =
     (Inl (os_error ENAMETOOLONG [long_name]), fs_logs)"
proof -
  have w: "\<exists>seg\<in>set (Path ''missing/*.txt''). has_wildcard seg"
    by code_simp
  have b: "exists fs_logs (takeWhile (\<lambda>seg. \<not> has_wildcard seg) (Path ''missing/*.txt'')) =
             Inr False"
    by code_simp
  have s: "str (takeWhile (\<lambda>seg. \<not> has_wildcard seg) (Path ''missing/*.txt'')) = ''missing''"
    by code_simp
  have w': "\<exists>seg\<in>set (Path (long_name @ ''/*.txt'')). has_wildcard seg"
    by code_simp
  have b': "exists fs_logs
              (takeWhile (\<lambda>seg. \<not> has_wildcard seg) (Path (long_name @ ''/*.txt''))) =
            Inl (os_error ENAMETOOLONG [long_name])"
    by code_simp
  show ?thesis
    using base_not_found_always_raised [OF w, of fs_logs glob_logs False]
          base_not_found_always_raised [OF w, of fs_logs glob_logs True]
          base_not_found_always_raised [OF w', of fs_logs glob_logs True] b b'
    by (simp add: s)
qed



text \<open>
  C7, as stated, fails where \<^verbatim>\<open>is_file()\<close> raises: for a literal pattern of 256
  characters, which names nothing, the call does not return the empty list but ends
  with the \<^verbatim>\<open>OSError\<close> of the failed lookup.
\<close>

theorem literal_lookup_fails_no_result:
  "Path long_name = [long_name] \<and> \<not> has_wildcard long_name \<and>
   entries fs_logs [long_name] = None \<and>
   stat fs_logs [long_name] = Inl ENAMETOOLONG \<and>
   fst (find_matching_paths glob_logs long_name False fs_logs) =
     Inl (OSError (''[Errno 36] File name too long: '' @ quoted [long_name]))"
  by code_simp

text \<open>
  C7, amended. For every pattern none of whose segments has a wildcard character, the
  call with \<^verbatim>\<open>raise_error_if_no_match\<close> false returns the one-element list holding the
  pattern's path if \<^verbatim>\<open>is_file()\<close> answers true for that path, and the empty list if it
  answers false; in particular it returns the empty list when the path is a directory.
  If \<^verbatim>\<open>is_file()\<close> raises, the call raises that exception.
\<close>

theorem literal_pattern_result:
  assumes "\<forall>seg\<in>set (Path pattern). \<not> has_wildcard seg"
  shows "(is_file fs (Path pattern) = Inr True \<longrightarrow>
            find_matching_paths glob pattern False fs = (Inr [Path pattern], fs)) \<and>
         (is_file fs (Path pattern) = Inr False \<longrightarrow>
            find_matching_paths glob pattern False fs = (Inr [], fs)) \<and>
         (is_dir fs (Path pattern) = Inr True \<longrightarrow>
            find_matching_paths glob pattern False fs = (Inr [], fs)) \<and>
         (\<forall>e. is_file fs (Path pattern) = Inl e \<longrightarrow>
            find_matching_paths glob pattern False fs = (Inl e, fs))"
  using find_literal [OF assms, of glob False fs] is_dir_not_file [of fs "Path pattern"]
  by (auto simp: literal_matches_def)

theorem literal_pattern_result_witness:
  "find_matching_paths glob_logs ''logs/2024/app.log'' False fs_logs =
     (Inr [[''logs'', ''2024'', ''app.log'']], fs_logs) \<and>
   find_matching_paths glob_logs ''logs/2024/old.log'' False fs_logs = (Inr [], fs_logs) \<and>
   find_matching_paths glob_logs ''logs/2025/app.log'' False fs_logs = (Inr [], fs_logs) \<and>
   find_matching_paths glob_logs long_name False fs_logs =
     (Inl (os_error ENAMETOOLONG [long_name]), fs_logs)"
proof -
  have a: "\<forall>seg\<in>set (Path ''logs/2024/app.log''). \<not> has_wildcard seg" by code_simp
  have b: "\<forall>seg\<in>set (Path ''logs/2024/old.log''). \<not> has_wildcard seg" by code_simp
  have c: "\<forall>seg\<in>set (Path ''logs/2025/app.log''). \<not> has_wildcard seg" by code_simp
  have d: "\<forall>seg\<in>set (Path long_name). \<not> has_wildcard seg" by code_simp
  have pa: "Path ''logs/2024/app.log'' = [''logs'', ''2024'', ''app.log'']" by code_simp
  have fa: "is_file fs_logs (Path ''logs/2024/app.log'') = Inr True" by code_simp
  have fb: "is_dir fs_logs (Path ''logs/2024/old.log'') = Inr True" by code_simp
  have fc: "is_file fs_logs (Path ''logs/2025/app.log'') = Inr False" by code_simp
  have fd: "is_file fs_logs (Path long_name) = Inl (os_error ENAMETOOLONG [long_name])"
    by code_simp
  have 1: "find_matching_paths glob_logs ''logs/2024/app.log'' False fs_logs =
     (Inr [[''logs'', ''2024'', ''app.log'']], fs_logs)"
    using literal_pattern_result [OF a, of fs_logs glob_logs] fa by (simp add: pa)
  have 2: "find_matching_paths glob_logs ''logs/2024/old.log'' False fs_logs = (Inr [], fs_logs)"
    using literal_pattern_result [OF b, of fs_logs glob_logs] fb by blast
  have 3: "find_matching_paths glob_logs ''logs/2025/app.log'' False fs_logs = (Inr [], fs_logs)"
    using literal_pattern_result [OF c, of fs_logs glob_logs] fc by blast
  have 4: "find_matching_paths glob_logs long_name False fs_logs =
     (Inl (os_error ENAMETOOLONG [long_name]), fs_logs)"
    using literal_pattern_result [OF d, of fs_logs glob_logs] fd by blast
  show ?thesis using 1 2 3 4 by blast
qed

text \<open>
  C8. Every path of a list returned by \<^verbatim>\<open>find_matching_paths\<close> is a regular file in the
  filesystem the call ran on, whatever glob enumerated: directories and other entries are
  filtered out. In the example, glob also enumerates the directory \<^verbatim>\<open>logs/2024/old.log\<close>,
  which matches \<^verbatim>\<open>*.log\<close>, and the result leaves it out.
\<close>

theorem results_are_regular_files:
  assumes "find_matching_paths glob pattern raise_error_if_no_match fs = (Inr result, fs')"
  shows "\<forall>p\<in>set result. is_file fs p = Inr True"
proof (cases "wildcard_positions (Path pattern)")
  case Nil
  then have "\<forall>seg\<in>set (Path pattern). \<not> has_wildcard seg"
    by (simp add: wildcard_positions_Nil)
  from find_literal [OF this, of glob raise_error_if_no_match fs] assms show ?thesis
    by (auto simp: literal_matches_def split: if_splits sum.splits)
next
  case (Cons k ks)
  from find_wildcard [OF this, of glob raise_error_if_no_match fs] assms
  obtain found where "filter_files fs found = Inr result"
    by (auto simp: glob_matches_def split: if_splits sum.splits)
  from filter_files_Inr [OF this] show ?thesis by simp
qed

theorem results_are_regular_files_witness:
  "find_matching_paths glob_logs ''logs/2024/*.log'' False fs_logs =
     (Inr [[''logs'', ''2024'', ''app.log''], [''logs'', ''2024'', ''error.log'']], fs_logs) \<and>
   is_file fs_logs [''logs'', ''2024'', ''app.log''] = Inr True \<and>
   is_file fs_logs [''logs'', ''2024'', ''error.log''] = Inr True \<and>
   is_dir fs_logs [''logs'', ''2024'', ''old.log''] = Inr True"
proof -
  have r: "fst (find_matching_paths glob_logs ''logs/2024/*.log'' False fs_logs) =
     Inr [[''logs'', ''2024'', ''app.log''], [''logs'', ''2024'', ''error.log'']]"
    by code_simp
  have e: "find_matching_paths glob_logs ''logs/2024/*.log'' False fs_logs =
     (Inr [[''logs'', ''2024'', ''app.log''], [''logs'', ''2024'', ''error.log'']], fs_logs)"
    using r find_snd [of glob_logs "''logs/2024/*.log''" False fs_logs]
    by (cases "find_matching_paths glob_logs ''logs/2024/*.log'' False fs_logs") simp
  have d: "is_dir fs_logs [''logs'', ''2024'', ''old.log''] = Inr True" by code_simp
  show ?thesis using results_are_regular_files [OF e] e d by simp
qed

text \<open>
  C6. Take a pattern that passes decomposition and base validation: it has no wildcard
  segment, or the path before its first wildcard segment exists and is a directory. Call
  \<^verbatim>\<open>candidates\<close> what the code computes for \<^verbatim>\<open>matches\<close>: the filtered list, or the
  exception that glob or \<^verbatim>\<open>is_file()\<close> raises on the way. Then the call departs from
  \<^verbatim>\<open>candidates\<close> exactly when the filtered list is empty and
  \<^verbatim>\<open>raise_error_if_no_match\<close> is true, and it then raises the no-match error
  (\<^verbatim>\<open>FileNotFoundError\<close>, the spec's NoMatchFound); in every other case, so always when
  the flag is false, it returns the filtered list, empty or not, or passes on the
  exception unchanged.
\<close>

theorem no_match_raised_iff_empty_and_flag:
  assumes "case wildcard_positions (Path pattern) of
             [] \<Rightarrow> candidates = literal_matches fs (Path pattern)
           | k # ks \<Rightarrow>
               exists fs (base_dir (Path pattern) k) = Inr True \<and>
               is_dir fs (base_dir (Path pattern) k) = Inr True \<and>
               candidates =
                 glob_matches glob fs (base_dir (Path pattern) k) (glob_pattern (Path pattern) k)"
  shows "find_matching_paths glob pattern r fs =
           (if r \<and> candidates = Inr []
            then (Inl (FileNotFoundError
                    ((if wildcard_positions (Path pattern) = [] then ''No files found: ''
                      else ''No files found matching pattern: '') @ pattern)), fs)
            else (candidates, fs)) \<and>
         ((find_matching_paths glob pattern r fs \<noteq> (candidates, fs)) =
          (r \<and> candidates = Inr []))"
proof (cases "wildcard_positions (Path pattern)")
  case Nil
  then have "\<forall>seg\<in>set (Path pattern). \<not> has_wildcard seg"
    by (simp add: wildcard_positions_Nil)
  from find_literal [OF this, of glob r fs] assms Nil show ?thesis
    by (auto split: sum.splits)
next
  case (Cons k ks)
  with assms have d: "is_dir fs (base_dir (Path pattern) k) = Inr True"
    and c: "candidates =
              glob_matches glob fs (base_dir (Path pattern) k) (glob_pattern (Path pattern) k)"
    by simp_all
  from find_valid_base [OF Cons d, of glob r] c Cons show ?thesis
    by (auto split: sum.splits)
qed

theorem no_match_raised_iff_empty_and_flag_witness:
  "find_matching_paths glob_logs ''logs/2024/*.xyz'' True fs_logs =
     (Inl (FileNotFoundError ''No files found matching pattern: logs/2024/*.xyz''), fs_logs) \<and>
   find_matching_paths glob_logs ''logs/2024/*.xyz'' False fs_logs = (Inr [], fs_logs)"
proof -
  have h: "case wildcard_positions (Path ''logs/2024/*.xyz'') of
             [] \<Rightarrow> Inr [] = literal_matches fs_logs (Path ''logs/2024/*.xyz'')
           | k # ks \<Rightarrow>
               exists fs_logs (base_dir (Path ''logs/2024/*.xyz'') k) = Inr True \<and>
               is_dir fs_logs (base_dir (Path ''logs/2024/*.xyz'') k) = Inr True \<and>
               Inr [] =
                 glob_matches glob_logs fs_logs (base_dir (Path ''logs/2024/*.xyz'') k)
                   (glob_pattern (Path ''logs/2024/*.xyz'') k)"
    by code_simp
  have w: "wildcard_positions (Path ''logs/2024/*.xyz'') \<noteq> []"
    by code_simp
  show ?thesis
    using no_match_raised_iff_empty_and_flag
            [where glob = glob_logs and fs = fs_logs and pattern = "''logs/2024/*.xyz''"
               and candidates = "Inr []" and r = True, OF h]
          no_match_raised_iff_empty_and_flag
            [where glob = glob_logs and fs = fs_logs and pattern = "''logs/2024/*.xyz''"
               and candidates = "Inr []" and r = False, OF h] w
    by simp
qed

text \<open>
  C9. \<^verbatim>\<open>find_matching_paths\<close> leaves the filesystem as it found it, and a second call
  with the same pattern and flag on that filesystem gives the same outcome up to the
  order of the result: a list with the same members, or an error both times. The
  enumeration order of glob is not fixed, so the second call may run on another
  enumeration \<^verbatim>\<open>glob2\<close> that agrees with the first one on errors and on membership. The
  two errors are equal, unless both come from \<^verbatim>\<open>is_file()\<close> raising on enumerated paths
  (which of them is met first depends on the order); they are equal whenever
  \<^verbatim>\<open>is_file()\<close> raises on no enumerated path, and the two outcomes are equal, order
  included, when the enumeration is the same.
\<close>

theorem find_read_only_and_repeatable:
  assumes "\<forall>base pat. rel_sum (=) (\<lambda>xs ys. set xs = set ys) (glob1 fs base pat) (glob2 fs base pat)"
  shows "snd (find_matching_paths glob1 pattern r fs) = fs \<and>
         rel_sum (\<lambda>e1 e2. e1 = e2 \<or>
              (\<exists>base pat found p q. glob1 fs base pat = Inr found \<and>
                 p \<in> set found \<and> q \<in> set found \<and>
                 is_file fs p = Inl e1 \<and> is_file fs q = Inl e2))
           (\<lambda>xs ys. set xs = set ys)
           (fst (find_matching_paths glob1 pattern r fs))
           (fst (find_matching_paths glob2 pattern r (snd (find_matching_paths glob1 pattern r fs)))) \<and>
         ((\<forall>base pat found p e.
              glob1 fs base pat = Inr found \<longrightarrow> p \<in> set found \<longrightarrow> is_file fs p \<noteq> Inl e) \<longrightarrow>
            rel_sum (=) (\<lambda>xs ys. set xs = set ys)
              (fst (find_matching_paths glob1 pattern r fs))
              (fst (find_matching_paths glob2 pattern r
                     (snd (find_matching_paths glob1 pattern r fs))))) \<and>
         ((\<forall>base pat. glob2 fs base pat = glob1 fs base pat) \<longrightarrow>
            fst (find_matching_paths glob2 pattern r (snd (find_matching_paths glob1 pattern r fs))) =
            fst (find_matching_paths glob1 pattern r fs))"
proof -
  let ?E = "\<lambda>e1 e2. e1 = e2 \<or>
              (\<exists>base pat found p q. glob1 fs base pat = Inr found \<and>
                 p \<in> set found \<and> q \<in> set found \<and>
                 is_file fs p = Inl e1 \<and> is_file fs q = Inl e2)"
  let ?S = "\<lambda>xs ys. set xs = set (ys :: path list)"
  let ?r1 = "fst (find_matching_paths glob1 pattern r fs)"
  let ?r2 = "fst (find_matching_paths glob2 pattern r fs)"
  have rel: "rel_sum ?E ?S ?r1 ?r2"
  proof (cases "wildcard_positions (Path pattern)")
    case Nil
    then have lit: "\<forall>seg\<in>set (Path pattern). \<not> has_wildcard seg"
      by (simp add: wildcard_positions_Nil)
    have "?r1 = ?r2" by (simp add: find_literal [OF lit])
    then show ?thesis by (cases ?r2) auto
  next
    case (Cons k ks)
    let ?b = "base_dir (Path pattern) k" and ?p = "glob_pattern (Path pattern) k"
    from assms have g: "rel_sum (=) ?S (glob1 fs ?b ?p) (glob2 fs ?b ?p)" by blast
    show ?thesis
    proof (cases "is_dir fs ?b = Inr True")
      case True
      have "rel_sum ?E ?S
              (fst (case glob_matches glob1 fs ?b ?p of Inl e \<Rightarrow> (Inl e, fs)
                    | Inr ms \<Rightarrow> if r \<and> ms = []
                        then (Inl (FileNotFoundError
                               (''No files found matching pattern: '' @ pattern)), fs)
                        else (Inr ms, fs)))
              (fst (case glob_matches glob2 fs ?b ?p of Inl e \<Rightarrow> (Inl e, fs)
                    | Inr ms \<Rightarrow> if r \<and> ms = []
                        then (Inl (FileNotFoundError
                               (''No files found matching pattern: '' @ pattern)), fs)
                        else (Inr ms, fs)))"
      proof -
        have gm: "rel_sum ?E ?S (glob_matches glob1 fs ?b ?p) (glob_matches glob2 fs ?b ?p)"
          using g by (rule glob_matches_rel [where ?glob1.0 = glob1 and ?glob2.0 = glob2])
        show ?thesis by (rule policy_rel [OF gm]) simp
      qed
      then show ?thesis by (simp add: find_valid_base [OF Cons True])
    next
      case False
      have "?r1 = ?r2"
        using False by (auto simp: find_wildcard [OF Cons] split: sum.splits)
      then show ?thesis by (cases ?r2) auto
    qed
  qed
  have strict: "rel_sum (=) ?S ?r1 ?r2"
    if "\<forall>base pat found p e.
          glob1 fs base pat = Inr found \<longrightarrow> p \<in> set found \<longrightarrow> is_file fs p \<noteq> Inl e"
  proof (cases ?r1)
    case r1: (Inl e1)
    show ?thesis
    proof (cases ?r2)
      case r2: (Inl e2)
      from rel r1 r2 have "?E e1 e2" by simp
      with that have "e1 = e2" by blast
      with r1 r2 show ?thesis by simp
    next
      case (Inr ys)
      with rel r1 show ?thesis by simp
    qed
  next
    case r1: (Inr xs)
    with rel show ?thesis by (cases ?r2) auto
  qed
  have same: "?r2 = ?r1" if "\<forall>base pat. glob2 fs base pat = glob1 fs base pat"
  proof -
    have eq: "glob_matches glob2 fs b p = glob_matches glob1 fs b p" for b p
      using that by (simp add: glob_matches_def)
    show ?thesis
      by (simp only: find_matching_paths_def eq)
  qed
  show ?thesis
    using rel strict same by (simp add: find_snd)
qed

theorem find_read_only_and_repeatable_witness:
  "snd (find_matching_paths glob_logs ''logs/2024/*.log'' False fs_logs) = fs_logs \<and>
   fst (find_matching_paths glob_logs ''logs/2024/*.log'' False fs_logs) =
     Inr [[''logs'', ''2024'', ''app.log''], [''logs'', ''2024'', ''error.log'']] \<and>
   fst (find_matching_paths glob_logs_reordered ''logs/2024/*.log'' False fs_logs) =
     Inr [[''logs'', ''2024'', ''error.log''], [''logs'', ''2024'', ''app.log'']] \<and>
   rel_sum (=) (\<lambda>xs ys. set xs = set ys)
     (fst (find_matching_paths glob_logs ''logs/2024/*.log'' False fs_logs))
     (fst (find_matching_paths glob_logs_reordered ''logs/2024/*.log'' False fs_logs))"
proof -
  have h: "\<forall>base pat. rel_sum (=) (\<lambda>xs ys. set xs = set ys)
             (glob_logs fs_logs base pat) (glob_logs_reordered fs_logs base pat)"
    by (auto simp: glob_logs_def glob_logs_reordered_def)
  have a: "fst (find_matching_paths glob_logs ''logs/2024/*.log'' False fs_logs) =
     Inr [[''logs'', ''2024'', ''app.log''], [''logs'', ''2024'', ''error.log'']]"
    by code_simp
  have b: "fst (find_matching_paths glob_logs_reordered ''logs/2024/*.log'' False fs_logs) =
     Inr [[''logs'', ''2024'', ''error.log''], [''logs'', ''2024'', ''app.log'']]"
    by code_simp
  have f1: "is_file fs_logs [''logs'', ''2024'', ''app.log''] = Inr True" by code_simp
  have f2: "is_file fs_logs [''logs'', ''2024'', ''old.log''] = Inr False" by code_simp
  have f3: "is_file fs_logs [''logs'', ''2024'', ''error.log''] = Inr True" by code_simp
  have n: "\<forall>base pat found p e.
             glob_logs fs_logs base pat = Inr found \<longrightarrow> p \<in> set found \<longrightarrow>
             is_file fs_logs p \<noteq> Inl e"
    using f1 f2 f3 by (auto simp: glob_logs_def split: if_splits)
  note T = find_read_only_and_repeatable
            [where ?glob1.0 = glob_logs and ?glob2.0 = glob_logs_reordered and fs = fs_logs
               and pattern = "''logs/2024/*.log''" and r = False, OF h]
  from T have s: "snd (find_matching_paths glob_logs ''logs/2024/*.log'' False fs_logs) = fs_logs"
    by blast
  from T n have "rel_sum (=) (\<lambda>xs ys. set xs = set ys)
     (fst (find_matching_paths glob_logs ''logs/2024/*.log'' False fs_logs))
     (fst (find_matching_paths glob_logs_reordered ''logs/2024/*.log'' False
            (snd (find_matching_paths glob_logs ''logs/2024/*.log'' False fs_logs))))"
    by blast
  then have c: "rel_sum (=) (\<lambda>xs ys. set xs = set ys)
     (fst (find_matching_paths glob_logs ''logs/2024/*.log'' False fs_logs))
     (fst (find_matching_paths glob_logs_reordered ''logs/2024/*.log'' False fs_logs))"
    by (simp only: s)
  from s a b c show ?thesis by blast
qed

text \<open>
  C10. For every pattern with a wildcard segment, the position \<^verbatim>\<open>k\<close> the code takes is
  the index of the first segment that has one of \<^verbatim>\<open>*\<close>, \<^verbatim>\<open>?\<close>, \<^verbatim>\<open>[\<close>; the base
  directory is the path whose parts are exactly the \<^verbatim>\<open>k\<close> segments before it; when the
  first segment has the wildcard the base directory is \<^verbatim>\<open>Path(".")\<close>, the current
  working directory; and it is under this base that glob is run, with the remaining
  segments joined as the pattern.
\<close>

theorem base_dir_is_prefix_before_first_wildcard:
  assumes "\<exists>seg\<in>set (Path pattern). has_wildcard seg"
  shows "\<exists>k ks. wildcard_positions (Path pattern) = k # ks \<and>
           k < length (Path pattern) \<and>
           has_wildcard (Path pattern ! k) \<and>
           (\<forall>j<k. \<not> has_wildcard (Path pattern ! j)) \<and>
           base_dir (Path pattern) k = take k (Path pattern) \<and>
           (k = 0 \<longrightarrow> base_dir (Path pattern) k = Path ''.'' \<and>
                      str (base_dir (Path pattern) k) = ''.'') \<and>
           (is_dir fs (take k (Path pattern)) = Inr True \<longrightarrow>
              fst (find_matching_paths glob pattern False fs) =
              (case glob fs (take k (Path pattern)) (join_sep (drop k (Path pattern))) of
                 Inl e \<Rightarrow> Inl e
               | Inr found \<Rightarrow> filter_files fs found))"
proof -
  from assms obtain k ks where wp: "wildcard_positions (Path pattern) = k # ks"
    by (rule wildcard_positions_Cons)
  note idx = first_wildcard_index [OF wp]
  have b: "base_dir (Path pattern) k = take k (Path pattern)"
    by (rule base_dir_Path)
  have z: "k = 0 \<longrightarrow> base_dir (Path pattern) k = Path ''.'' \<and>
                      str (base_dir (Path pattern) k) = ''.''"
    by (simp add: base_dir_def Path_dot str_def)
  have f: "is_dir fs (take k (Path pattern)) = Inr True \<longrightarrow>
              fst (find_matching_paths glob pattern False fs) =
              (case glob fs (take k (Path pattern)) (join_sep (drop k (Path pattern))) of
                 Inl e \<Rightarrow> Inl e
               | Inr found \<Rightarrow> filter_files fs found)"
  proof
    assume d: "is_dir fs (take k (Path pattern)) = Inr True"
    then have d': "is_dir fs (base_dir (Path pattern) k) = Inr True" by (simp add: b)
    show "fst (find_matching_paths glob pattern False fs) =
              (case glob fs (take k (Path pattern)) (join_sep (drop k (Path pattern))) of
                 Inl e \<Rightarrow> Inl e
               | Inr found \<Rightarrow> filter_files fs found)"
      by (simp add: find_valid_base [OF wp d'] b glob_pattern_joined [OF wp] glob_matches_def
               split: sum.splits)
  qed
  from wp idx b z f show ?thesis by blast
qed

theorem base_dir_is_prefix_before_first_wildcard_witness:
  "base_dir (Path ''logs/2024/*.log'') 2 = [''logs'', ''2024''] \<and>
   base_dir (Path ''*.txt'') 0 = [] \<and> str (base_dir (Path ''*.txt'') 0) = ''.''"
proof -
  have a: "\<exists>seg\<in>set (Path ''logs/2024/*.log''). has_wildcard seg" by code_simp
  have b: "\<exists>seg\<in>set (Path ''*.txt''). has_wildcard seg" by code_simp
  have wa: "wildcard_positions (Path ''logs/2024/*.log'') = [2]" by code_simp
  have wb: "wildcard_positions (Path ''*.txt'') = [0]" by code_simp
  have ta: "take 2 (Path ''logs/2024/*.log'') = [''logs'', ''2024'']" by code_simp
  have d: "Path ''.'' = []" by code_simp
  from base_dir_is_prefix_before_first_wildcard [OF a, of fs_logs glob_logs]
  have 1: "base_dir (Path ''logs/2024/*.log'') 2 = [''logs'', ''2024'']"
    by (auto simp: wa ta)
  from base_dir_is_prefix_before_first_wildcard [OF b, of fs_logs glob_logs]
  have 2: "base_dir (Path ''*.txt'') 0 = [] \<and> str (base_dir (Path ''*.txt'') 0) = ''.''"
    by (auto simp: wb d)
  from 1 2 show ?thesis by blast
qed

section \<open>Lookups, \<^verbatim>\<open>mkdir\<close> and \<^verbatim>\<open>unlink\<close> on the tree\<close>

lemma errno_of_not_ENOENT: "errno_of r \<noteq> ENOENT"
  by (cases r) (simp_all add: errno_of_def)

lemma walk_snoc:
  "walk fs cur (rest @ [s]) =
     (case walk fs cur rest of
        Inl e \<Rightarrow> Inl e
      | Inr Dir \<Rightarrow>
          (if length s > name_max fs then Inl ENAMETOOLONG else walk fs (cur @ rest @ [s]) [])
      | Inr _ \<Rightarrow> Inl ENOTDIR)"
  by (induction rest arbitrary: cur) (auto split: option.splits node.splits sum.splits)

lemma butlast_neq: "xs \<noteq> [] \<Longrightarrow> butlast xs \<noteq> xs"
  by (induction xs) auto

lemma parent_self: "parent p = p \<Longrightarrow> p = [] \<or> (\<exists>x. p = [x] \<and> is_root x)"
  using butlast_neq [of p] by (cases p) (auto simp: parent_def split: if_splits)

lemma stat_snoc:
  assumes "parent p \<noteq> p"
  shows "stat fs p =
     (case stat fs (parent p) of
        Inl e \<Rightarrow> Inl e
      | Inr Dir \<Rightarrow>
          (if length (last p) > name_max fs then Inl ENAMETOOLONG else walk fs p [])
      | Inr _ \<Rightarrow> Inl ENOTDIR)"
proof (cases p)
  case Nil
  with assms show ?thesis by (simp add: parent_def)
next
  case (Cons x xs)
  show ?thesis
  proof (cases "xs = []")
    case True
    with Cons assms have nr: "\<not> is_root x" by (auto simp: parent_def)
    from walk_snoc [of fs "[]" "[]" x] True Cons nr show ?thesis
      by (auto simp add: stat_def parent_def simp del: walk.simps split: sum.splits node.splits)
  next
    case False
    then have xs: "xs = butlast xs @ [last xs]" by simp
    have par: "parent p = x # butlast xs" using Cons False by (simp add: parent_def)
    have lst: "last p = last xs" using Cons False by simp
    show ?thesis
    proof (cases "is_root x")
      case True
      from walk_snoc [of fs "[x]" "butlast xs" "last xs"] xs True Cons par lst show ?thesis
        by (auto simp add: stat_def simp del: walk.simps split: sum.splits node.splits)
    next
      case nr: False
      from walk_snoc [of fs "[]" "x # butlast xs" "last xs"] xs nr Cons par lst False
      show ?thesis
        by (auto simp add: stat_def simp del: walk.simps split: sum.splits node.splits)
    qed
  qed
qed

lemma walk_final:
  "walk fs p [] = Inl ENOENT \<Longrightarrow> lookup_denied fs p = None \<and> entries fs p = None"
  by (auto simp: errno_of_not_ENOENT split: option.splits)

lemma walk_final_Inr:
  "walk fs p [] = Inr n \<Longrightarrow> lookup_denied fs p = None \<and> entries fs p = Some n"
  by (auto split: option.splits)

lemma walk_entries: "walk fs cur rest = Inr n \<Longrightarrow> entries fs (cur @ rest) = Some n"
proof (induction rest arbitrary: cur)
  case Nil
  then show ?case by (auto split: option.splits)
next
  case (Cons s rest)
  from Cons(2) have "walk fs (cur @ [s]) rest = Inr n"
    by (auto split: option.splits node.splits if_splits)
  from Cons.IH [OF this] show ?case by simp
qed

lemma stat_entries: "stat fs p = Inr n \<Longrightarrow> entries fs p = Some n"
  using walk_entries [of fs "[]" p n] walk_entries [of fs "[hd p]" "tl p" n]
  by (cases p) (auto simp: stat_def simp del: walk.simps split: if_splits)

lemma exists_stat: "exists fs p = Inr True \<Longrightarrow> \<exists>n. stat fs p = Inr n"
  by (auto simp: exists_def split: sum.splits if_splits)

lemma only_new_dirs_refl: "only_new_dirs fs fs"
  by (simp add: only_new_dirs_def)

lemma only_new_dirs_trans:
  "only_new_dirs fs fs1 \<Longrightarrow> only_new_dirs fs1 fs2 \<Longrightarrow> only_new_dirs fs fs2"
  unfolding only_new_dirs_def by (metis)

lemma walk_stable:
  "only_new_dirs fs fs' \<Longrightarrow> walk fs cur rest = Inr n \<Longrightarrow> walk fs' cur rest = Inr n"
proof (induction rest arbitrary: cur)
  case Nil
  from Nil(1) have "entries fs' cur = entries fs cur \<or> entries fs cur = None"
    and "lookup_denied fs' = lookup_denied fs"
    by (auto simp: only_new_dirs_def)
  with Nil(2) show ?case by (auto split: option.splits)
next
  case (Cons s rest)
  from Cons(2) have e: "entries fs' cur = entries fs cur \<or> entries fs cur = None"
    and l: "lookup_denied fs' = lookup_denied fs" and m: "name_max fs' = name_max fs"
    by (auto simp: only_new_dirs_def)
  from Cons(3) have "walk fs (cur @ [s]) rest = Inr n" and "entries fs cur = Some Dir"
    and "lookup_denied fs cur = None" and "\<not> length s > name_max fs"
    by (auto split: option.splits node.splits if_splits)
  with Cons.IH [OF Cons(2)] e l m show ?case by auto
qed

lemma stat_stable:
  "only_new_dirs fs fs' \<Longrightarrow> stat fs q = Inr n \<Longrightarrow> stat fs' q = Inr n"
  by (auto simp: stat_def walk_stable simp del: walk.simps split: list.splits if_splits)

lemma exists_stable:
  assumes "only_new_dirs fs fs'" and "exists fs p = Inr True"
  shows "exists fs' p = Inr True" and "entries fs' p = entries fs p"
proof -
  from exists_stat [OF assms(2)] obtain n where n: "stat fs p = Inr n" ..
  from stat_stable [OF assms(1) n] show "exists fs' p = Inr True" by (simp add: exists_def)
  from assms(1)
  have "\<forall>q. entries fs' q = entries fs q \<or> (entries fs q = None \<and> entries fs' q = Some Dir)"
    by (simp add: only_new_dirs_def)
  from this [rule_format, of p] stat_entries [OF n] show "entries fs' p = entries fs p"
    by auto
qed

lemma os_mkdir_Inr:
  assumes "os_mkdir p fs = Inr fs'"
  shows "parent p \<noteq> p" and "stat fs (parent p) = Inr Dir" and "stat fs p = Inl ENOENT"
    and "write_denied fs p = None" and "\<not> islink fs p"
    and "fs' = fs\<lparr>entries := (entries fs)(p \<mapsto> Dir)\<rparr>"
  using assms
  by (auto simp: os_mkdir_def split: if_splits sum.splits node.splits option.splits)

lemma os_mkdir_absent:
  assumes "os_mkdir p fs = Inr fs'"
  shows "entries fs p = None" and "lookup_denied fs p = None"
    and "\<not> length (last p) > name_max fs"
proof -
  note f = os_mkdir_Inr [OF assms]
  from stat_snoc [OF f(1), of fs] f(2) f(3)
  have a: "\<not> length (last p) > name_max fs" and "walk fs p [] = Inl ENOENT"
    by (auto split: if_splits)
  with walk_final show "entries fs p = None" and "lookup_denied fs p = None"
    and "\<not> length (last p) > name_max fs" by auto
qed

lemma os_mkdir_only_new_dirs:
  assumes "os_mkdir p fs = Inr fs'"
  shows "only_new_dirs fs fs'"
  using os_mkdir_Inr(6) [OF assms] os_mkdir_absent(1) [OF assms]
  by (simp add: only_new_dirs_def)

lemma os_mkdir_is_dir:
  assumes "os_mkdir p fs = Inr fs'"
  shows "is_dir fs' p = Inr True"
proof -
  note f = os_mkdir_Inr [OF assms]
  note a = os_mkdir_absent [OF assms]
  have "stat fs' (parent p) = Inr Dir"
    using stat_stable [OF os_mkdir_only_new_dirs [OF assms] f(2)] .
  moreover have "walk fs' p [] = Inr Dir" using f(6) a(2) by simp
  moreover have "name_max fs' = name_max fs" using f(6) by simp
  ultimately have "stat fs' p = Inr Dir"
    using stat_snoc [OF f(1), of fs'] a(3) by simp
  then show ?thesis by (simp add: is_dir_def)
qed

lemma mkdir_only_new_dirs:
  "mkdir p parents exist_ok fs = (r, fs') \<Longrightarrow> only_new_dirs fs fs'"
proof (induction p parents exist_ok fs arbitrary: r fs' rule: mkdir.induct)
  case (1 p parents exist_ok fs)
  show ?case
  proof (cases "os_mkdir p fs")
    case (Inr fs1)
    with 1(3) have "fs' = fs1" by (simp add: mkdir.simps)
    with os_mkdir_only_new_dirs [OF Inr] show ?thesis by simp
  next
    case (Inl e)
    show ?thesis
    proof (cases "(\<exists>m. e = FileNotFoundError m) \<and> \<not> (\<not> parents \<or> parent p = p)")
      case True
      then obtain m where e: "e = FileNotFoundError m" and c: "\<not> (\<not> parents \<or> parent p = p)"
        by blast
      obtain r1 fs1 where m1: "mkdir (parent p) True True fs = (r1, fs1)"
        by (cases "mkdir (parent p) True True fs")
      from "1.IH"(1) [OF Inl e c m1] have o1: "only_new_dirs fs fs1" .
      show ?thesis
      proof (cases r1)
        case (Inl e1)
        with 1(3) \<open>os_mkdir p fs = Inl e\<close> e c m1 have "fs' = fs1"
          by (simp add: mkdir.simps)
        with o1 show ?thesis by simp
      next
        case (Inr u)
        with 1(3) \<open>os_mkdir p fs = Inl e\<close> e c m1
        have m2: "mkdir p False exist_ok fs1 = (r, fs')"
          by (simp add: mkdir.simps)
        from "1.IH"(2) [OF \<open>os_mkdir p fs = Inl e\<close> e c m1 [symmetric] Inr m2]
        have "only_new_dirs fs1 fs'" .
        with o1 show ?thesis by (rule only_new_dirs_trans)
      qed
    next
      case False
      with 1(3) Inl have "fs' = fs"
        by (cases e) (auto simp: mkdir.simps split: if_splits sum.splits)
      then show ?thesis by (simp add: only_new_dirs_refl)
    qed
  qed
qed

lemma mkdir_is_dir:
  "mkdir p parents exist_ok fs = (Inr u, fs') \<Longrightarrow> is_dir fs' p = Inr True"
proof (induction p parents exist_ok fs arbitrary: u fs' rule: mkdir.induct)
  case (1 p parents exist_ok fs)
  show ?case
  proof (cases "os_mkdir p fs")
    case (Inr fs1)
    with 1(3) have "fs' = fs1" by (simp add: mkdir.simps)
    with os_mkdir_is_dir [OF Inr] show ?thesis by simp
  next
    case (Inl e)
    show ?thesis
    proof (cases "(\<exists>m. e = FileNotFoundError m) \<and> \<not> (\<not> parents \<or> parent p = p)")
      case True
      then obtain m where e: "e = FileNotFoundError m" and c: "\<not> (\<not> parents \<or> parent p = p)"
        by blast
      obtain r1 fs1 where m1: "mkdir (parent p) True True fs = (r1, fs1)"
        by (cases "mkdir (parent p) True True fs")
      show ?thesis
      proof (cases r1)
        case (Inl e1)
        with 1(3) \<open>os_mkdir p fs = Inl e\<close> e c m1 show ?thesis
          by (simp add: mkdir.simps)
      next
        case (Inr u1)
        with 1(3) \<open>os_mkdir p fs = Inl e\<close> e c m1
        have m2: "mkdir p False exist_ok fs1 = (Inr u, fs')"
          by (simp add: mkdir.simps)
        from "1.IH"(2) [OF \<open>os_mkdir p fs = Inl e\<close> e c m1 [symmetric] Inr m2]
        show ?thesis .
      qed
    next
      case False
      with 1(3) Inl show ?thesis
        by (cases e) (auto simp: mkdir.simps split: if_splits sum.splits)
    qed
  qed
qed

lemma walk_agree:
  assumes "lookup_denied fs' = lookup_denied fs" and "name_max fs' = name_max fs"
    and "\<forall>ys. length ys \<le> length rest \<longrightarrow> entries fs' (cur @ ys) = entries fs (cur @ ys)"
  shows "walk fs' cur rest = walk fs cur rest"
  using assms(3)
proof (induction rest arbitrary: cur)
  case Nil
  then show ?case using assms(1) by (auto split: option.splits)
next
  case (Cons s rest)
  from Cons(2) [rule_format, of "[]"] have c: "entries fs' cur = entries fs cur" by simp
  have "\<forall>ys. length ys \<le> length rest \<longrightarrow>
          entries fs' ((cur @ [s]) @ ys) = entries fs ((cur @ [s]) @ ys)"
  proof (intro allI impI)
    fix ys :: "string list"
    assume "length ys \<le> length rest"
    with Cons(2) [rule_format, of "s # ys"]
    show "entries fs' ((cur @ [s]) @ ys) = entries fs ((cur @ [s]) @ ys)" by simp
  qed
  from Cons.IH [OF this] c assms(1) assms(2) show ?case
    by (auto split: option.splits node.splits)
qed

lemma stat_parent_agree:
  assumes "lookup_denied fs' = lookup_denied fs" and "name_max fs' = name_max fs"
    and "\<forall>q. q \<noteq> p \<longrightarrow> entries fs' q = entries fs q" and "parent p \<noteq> p"
  shows "stat fs' (parent p) = stat fs (parent p)"
proof -
  from assms(4) have ne: "p \<noteq> []" and par: "parent p = butlast p"
    by (auto simp: parent_def)
  have len: "length (butlast p) < length p" using ne by simp
  have w: "walk fs' cur rest = walk fs cur rest" if "cur @ rest = butlast p" for cur rest
  proof (rule walk_agree [OF assms(1) assms(2)], intro allI impI)
    fix ys :: "string list"
    assume "length ys \<le> length rest"
    then have "length (cur @ ys) \<le> length (butlast p)" using that [symmetric] by simp
    with len have "cur @ ys \<noteq> p" by auto
    with assms(3) show "entries fs' (cur @ ys) = entries fs (cur @ ys)" by simp
  qed
  show ?thesis
  proof (cases "butlast p")
    case Nil
    with w [of "[]" "[]"] par show ?thesis by (simp add: stat_def del: walk.simps)
  next
    case (Cons x xs)
    with w [of "[x]" xs] w [of "[]" "x # xs"] par show ?thesis
      by (simp add: stat_def del: walk.simps)
  qed
qed

lemma stat_removed:
  assumes "stat fs p = Inr n"
  shows "stat (fs\<lparr>entries := (entries fs)(p := None), islink := l\<rparr>) p = Inl ENOENT"
proof (cases "parent p = p")
  case True
  from parent_self [OF this] have "stat fs p = walk fs p []" for fs :: filesystem
    by (auto simp: stat_def simp del: walk.simps)
  with assms show ?thesis by (auto split: option.splits)
next
  case False
  let ?fs' = "fs\<lparr>entries := (entries fs)(p := None), islink := l\<rparr>"
  from stat_snoc [OF False, of fs] assms
  have a: "stat fs (parent p) = Inr Dir" "\<not> length (last p) > name_max fs"
    "walk fs p [] = Inr n"
    by (auto split: sum.splits node.splits if_splits)
  have "stat ?fs' (parent p) = stat fs (parent p)"
    by (rule stat_parent_agree [OF _ _ _ False]) simp_all
  with stat_snoc [OF False, of ?fs'] a walk_final_Inr [OF a(3)] show ?thesis
    by simp
qed

lemma move_file_cases:
  assumes "exists fs (Path source) = Inr True"
  shows "move_file source destination delete_original fs =
     (case is_dir fs (Path destination) of
        Inl e \<Rightarrow> (Inl e, fs)
      | Inr dir \<Rightarrow>
          (case mkdir (parent (if dir then truediv (Path destination) (name (Path source))
                               else Path destination)) True True fs of
             (Inl e, fs1) \<Rightarrow> (Inl e, fs1)
           | (Inr u, fs1) \<Rightarrow> (Inl (NameError ''name 'shutil' is not defined''), fs1)))"
  using assms
  by (simp add: move_file_def module_globals_def Let_def split: sum.splits prod.splits)

lemma move_file_raises: "\<exists>e. fst (move_file source destination delete_original fs) = Inl e"
  by (auto simp: move_file_def module_globals_def Let_def split: sum.splits prod.splits)

lemma move_file_only_new_dirs:
  "only_new_dirs fs (snd (move_file source destination delete_original fs))"
  by (auto simp: move_file_def module_globals_def Let_def only_new_dirs_refl
           dest: mkdir_only_new_dirs split: sum.splits prod.splits)

lemma delete_file_eq:
  "delete_file path fs =
     (case stat fs (Path path) of
        Inl e \<Rightarrow>
          (if ignore_error e then (Inr False, fs) else (Inl (os_error e (Path path)), fs))
      | Inr n \<Rightarrow>
          (case write_denied fs (Path path) of
             Some d \<Rightarrow> (Inl (os_error (errno_of d) (Path path)), fs)
           | None \<Rightarrow>
               (if n = Dir \<and> \<not> islink fs (Path path)
                then (Inl (os_error EISDIR (Path path)), fs)
                else (Inr True,
                      fs\<lparr>entries := (entries fs)(Path path := None),
                         islink := (islink fs)(Path path := False)\<rparr>))))"
  by (auto simp: delete_file_def exists_def unlink_def os_unlink_def Let_def
           split: sum.splits option.splits if_splits)

section \<open>Properties of \<^verbatim>\<open>move_file\<close> and \<^verbatim>\<open>delete_file\<close>\<close>

text \<open>
  C1. The spec's scenario D, run on the code: \<^verbatim>\<open>move_file("a/b/file.txt", "x/y/file.txt")\<close>
  with \<^verbatim>\<open>delete_original\<close> false, where the source is a regular file and \<^verbatim>\<open>x/y\<close> does
  not exist. The call creates \<^verbatim>\<open>x/y\<close> and then raises \<^verbatim>\<open>NameError\<close>; the source is still
  there with its bytes and the destination file does not exist.
\<close>

theorem move_file_scenario_D:
  "is_file fs_move (Path ''a/b/file.txt'') = Inr True \<and>
   exists fs_move (Path ''x'') = Inr False \<and>
   exists fs_move (Path ''x/y'') = Inr False \<and>
   fst (move_file ''a/b/file.txt'' ''x/y/file.txt'' False fs_move) =
     Inl (NameError ''name 'shutil' is not defined'') \<and>
   is_dir (snd (move_file ''a/b/file.txt'' ''x/y/file.txt'' False fs_move)) (Path ''x/y'')
     = Inr True \<and>
   exists (snd (move_file ''a/b/file.txt'' ''x/y/file.txt'' False fs_move))
     (Path ''x/y/file.txt'') = Inr False \<and>
   entries (snd (move_file ''a/b/file.txt'' ''x/y/file.txt'' False fs_move))
     (Path ''x/y/file.txt'') = None \<and>
   entries (snd (move_file ''a/b/file.txt'' ''x/y/file.txt'' False fs_move))
     (Path ''a/b/file.txt'') = Some (File [104, 105]) \<and>
   is_file (snd (move_file ''a/b/file.txt'' ''x/y/file.txt'' False fs_move))
     (Path ''a/b/file.txt'') = Inr True"
  by code_simp

text \<open>
  C2, as stated, fails where the parent of the destination cannot be created: with the
  regular file \<^verbatim>\<open>taken\<close> in the way, \<^verbatim>\<open>mkdir\<close> raises \<^verbatim>\<open>FileExistsError\<close>, or
  \<^verbatim>\<open>NotADirectoryError\<close> one level below it; with a name of 256 characters under a new
  directory \<^verbatim>\<open>x\<close> it raises \<^verbatim>\<open>OSError\<close> after having created \<^verbatim>\<open>x\<close>. Line 64 is not
  reached.
\<close>

theorem move_file_parent_is_a_file:
  "exists fs_move (Path ''a/b/file.txt'') = Inr True \<and>
   fst (move_file ''a/b/file.txt'' ''taken/file.txt'' False fs_move) =
     Inl (FileExistsError (''[Errno 17] File exists: '' @ quoted [''taken''])) \<and>
   fst (move_file ''a/b/file.txt'' ''taken/q/file.txt'' False fs_move) =
     Inl (NotADirectoryError (''[Errno 20] Not a directory: '' @ quoted [''taken'', ''q''])) \<and>
   fst (move_file ''a/b/file.txt'' (''x/'' @ long_name @ ''/f'') False fs_move) =
     Inl (OSError (''[Errno 36] File name too long: '' @ quoted [''x'', long_name])) \<and>
   is_dir (snd (move_file ''a/b/file.txt'' (''x/'' @ long_name @ ''/f'') False fs_move))
     [''x''] = Inr True"
  by code_simp

text \<open>
  C2, amended. Every call of \<^verbatim>\<open>move_file\<close> ends in an exception, and the filesystem
  changes by new directories only: no file content is copied and nothing is deleted. When
  the source exists, it still exists afterwards, and: if \<^verbatim>\<open>is_dir()\<close> raises on the
  destination, that exception is raised and nothing is changed; if creating the parent
  directories of the destination raises, that exception, whatever its class, is the one
  of the call, and the directories created before it stay; if creating them succeeds,
  that parent is a directory afterwards and the exception is the \<^verbatim>\<open>NameError\<close> of the
  unbound name \<^verbatim>\<open>shutil\<close>. Here \<^verbatim>\<open>dest\<close> is the destination after line 61.
\<close>

theorem move_file_raises_before_copying:
  "(\<exists>e. fst (move_file source destination delete_original fs) = Inl e) \<and>
   only_new_dirs fs (snd (move_file source destination delete_original fs)) \<and>
   (exists fs (Path source) = Inr True \<longrightarrow>
      exists (snd (move_file source destination delete_original fs)) (Path source) = Inr True \<and>
      entries (snd (move_file source destination delete_original fs)) (Path source) =
        entries fs (Path source) \<and>
      (\<forall>e. is_dir fs (Path destination) = Inl e \<longrightarrow>
         move_file source destination delete_original fs = (Inl e, fs)) \<and>
      (\<forall>dir dest e fs1.
         is_dir fs (Path destination) = Inr dir \<longrightarrow>
         dest = (if dir then truediv (Path destination) (name (Path source))
                 else Path destination) \<longrightarrow>
         mkdir (parent dest) True True fs = (Inl e, fs1) \<longrightarrow>
         move_file source destination delete_original fs = (Inl e, fs1)) \<and>
      (\<forall>dir dest fs1.
         is_dir fs (Path destination) = Inr dir \<longrightarrow>
         dest = (if dir then truediv (Path destination) (name (Path source))
                 else Path destination) \<longrightarrow>
         mkdir (parent dest) True True fs = (Inr (), fs1) \<longrightarrow>
         move_file source destination delete_original fs =
           (Inl (NameError ''name 'shutil' is not defined''), fs1) \<and>
         is_dir fs1 (parent dest) = Inr True))"
proof (intro conjI impI allI)
  show "\<exists>e. fst (move_file source destination delete_original fs) = Inl e"
    by (rule move_file_raises)
  show "only_new_dirs fs (snd (move_file source destination delete_original fs))"
    by (rule move_file_only_new_dirs)
next
  assume ex: "exists fs (Path source) = Inr True"
  from exists_stable [OF move_file_only_new_dirs ex]
  show "exists (snd (move_file source destination delete_original fs)) (Path source) = Inr True"
    and "entries (snd (move_file source destination delete_original fs)) (Path source) =
           entries fs (Path source)"
    by auto
next
  fix e
  assume ex: "exists fs (Path source) = Inr True" and "is_dir fs (Path destination) = Inl e"
  then show "move_file source destination delete_original fs = (Inl e, fs)"
    by (simp add: move_file_cases)
next
  fix dir dest e fs1
  assume ex: "exists fs (Path source) = Inr True"
    and "is_dir fs (Path destination) = Inr dir"
    and "dest = (if dir then truediv (Path destination) (name (Path source))
                 else Path destination)"
    and "mkdir (parent dest) True True fs = (Inl e, fs1)"
  then show "move_file source destination delete_original fs = (Inl e, fs1)"
    by (simp add: move_file_cases)
next
  fix dir dest fs1
  assume ex: "exists fs (Path source) = Inr True"
    and "is_dir fs (Path destination) = Inr dir"
    and "dest = (if dir then truediv (Path destination) (name (Path source))
                 else Path destination)"
    and "mkdir (parent dest) True True fs = (Inr (), fs1)"
  then show "move_file source destination delete_original fs =
               (Inl (NameError ''name 'shutil' is not defined''), fs1)"
    by (simp add: move_file_cases)
next
  fix dir dest fs1
  assume "mkdir (parent dest) True True fs = (Inr (), fs1)"
  then show "is_dir fs1 (parent dest) = Inr True"
    by (rule mkdir_is_dir)
qed

theorem move_file_raises_before_copying_witness:
  "exists fs_move (Path ''a/b/file.txt'') = Inr True \<and>
   is_dir fs_move (Path ''x/y/moved.txt'') = Inr False \<and>
   parent (Path ''x/y/moved.txt'') = [''x'', ''y''] \<and>
   fst (mkdir [''x'', ''y''] True True fs_move) = Inr () \<and>
   move_file ''a/b/file.txt'' ''x/y/moved.txt'' True fs_move =
     (Inl (NameError ''name 'shutil' is not defined''),
      snd (mkdir [''x'', ''y''] True True fs_move)) \<and>
   is_dir (snd (mkdir [''x'', ''y''] True True fs_move)) [''x'', ''y''] = Inr True \<and>
   exists (snd (move_file ''a/b/file.txt'' ''x/y/moved.txt'' True fs_move))
     (Path ''a/b/file.txt'') = Inr True \<and>
   only_new_dirs fs_move (snd (move_file ''a/b/file.txt'' ''x/y/moved.txt'' True fs_move)) \<and>
   is_dir fs_move (Path ''taken/q/moved.txt'') = Inr False \<and>
   parent (Path ''taken/q/moved.txt'') = [''taken'', ''q''] \<and>
   fst (mkdir [''taken'', ''q''] True True fs_move) =
     Inl (NotADirectoryError (''[Errno 20] Not a directory: '' @ quoted [''taken'', ''q''])) \<and>
   move_file ''a/b/file.txt'' ''taken/q/moved.txt'' True fs_move =
     (Inl (NotADirectoryError (''[Errno 20] Not a directory: '' @ quoted [''taken'', ''q''])),
      snd (mkdir [''taken'', ''q''] True True fs_move))"
proof -
  note T = move_file_raises_before_copying
    [of "''a/b/file.txt''" "''x/y/moved.txt''" True fs_move]
  note U = move_file_raises_before_copying
    [of "''a/b/file.txt''" "''taken/q/moved.txt''" True fs_move]
  have h1: "exists fs_move (Path ''a/b/file.txt'') = Inr True" by code_simp
  have h2: "is_dir fs_move (Path ''x/y/moved.txt'') = Inr False" by code_simp
  have pd: "parent (Path ''x/y/moved.txt'') = [''x'', ''y'']" by code_simp
  have h3: "fst (mkdir [''x'', ''y''] True True fs_move) = Inr ()" by code_simp
  then have h3': "mkdir [''x'', ''y''] True True fs_move =
                    (Inr (), snd (mkdir [''x'', ''y''] True True fs_move))"
    by (metis prod.collapse)
  have k2: "is_dir fs_move (Path ''taken/q/moved.txt'') = Inr False" by code_simp
  have kd: "parent (Path ''taken/q/moved.txt'') = [''taken'', ''q'']" by code_simp
  have k3: "fst (mkdir [''taken'', ''q''] True True fs_move) =
     Inl (NotADirectoryError (''[Errno 20] Not a directory: '' @ quoted [''taken'', ''q'']))"
    by code_simp
  then have k3': "mkdir [''taken'', ''q''] True True fs_move =
     (Inl (NotADirectoryError (''[Errno 20] Not a directory: '' @ quoted [''taken'', ''q''])),
      snd (mkdir [''taken'', ''q''] True True fs_move))"
    by (metis prod.collapse)
  from T have a: "only_new_dirs fs_move
      (snd (move_file ''a/b/file.txt'' ''x/y/moved.txt'' True fs_move))"
    by blast
  from T h1 have b: "exists (snd (move_file ''a/b/file.txt'' ''x/y/moved.txt'' True fs_move))
     (Path ''a/b/file.txt'') = Inr True"
    by blast
  from T h1 have "\<forall>dir dest fs1.
         is_dir fs_move (Path ''x/y/moved.txt'') = Inr dir \<longrightarrow>
         dest = (if dir then truediv (Path ''x/y/moved.txt'') (name (Path ''a/b/file.txt''))
                 else Path ''x/y/moved.txt'') \<longrightarrow>
         mkdir (parent dest) True True fs_move = (Inr (), fs1) \<longrightarrow>
         move_file ''a/b/file.txt'' ''x/y/moved.txt'' True fs_move =
           (Inl (NameError ''name 'shutil' is not defined''), fs1) \<and>
         is_dir fs1 (parent dest) = Inr True"
    by blast
  from this [rule_format, OF h2, of "Path ''x/y/moved.txt''"
               "snd (mkdir [''x'', ''y''] True True fs_move)"] h3' pd
  have c: "move_file ''a/b/file.txt'' ''x/y/moved.txt'' True fs_move =
     (Inl (NameError ''name 'shutil' is not defined''),
      snd (mkdir [''x'', ''y''] True True fs_move)) \<and>
   is_dir (snd (mkdir [''x'', ''y''] True True fs_move)) [''x'', ''y''] = Inr True"
    by simp
  from U h1 have "\<forall>dir dest e fs1.
         is_dir fs_move (Path ''taken/q/moved.txt'') = Inr dir \<longrightarrow>
         dest = (if dir then truediv (Path ''taken/q/moved.txt'') (name (Path ''a/b/file.txt''))
                 else Path ''taken/q/moved.txt'') \<longrightarrow>
         mkdir (parent dest) True True fs_move = (Inl e, fs1) \<longrightarrow>
         move_file ''a/b/file.txt'' ''taken/q/moved.txt'' True fs_move = (Inl e, fs1)"
    by blast
  from this [rule_format, OF k2, of "Path ''taken/q/moved.txt''" _
               "snd (mkdir [''taken'', ''q''] True True fs_move)"] k3' kd
  have d: "move_file ''a/b/file.txt'' ''taken/q/moved.txt'' True fs_move =
     (Inl (NotADirectoryError (''[Errno 20] Not a directory: '' @ quoted [''taken'', ''q''])),
      snd (mkdir [''taken'', ''q''] True True fs_move))"
    by simp
  from h1 h2 pd h3 a b c k2 kd k3 d show ?thesis by blast
qed

text \<open>
  C3, as stated, fails on a directory: the path exists, so \<^verbatim>\<open>unlink\<close> is called, and it
  raises \<^verbatim>\<open>IsADirectoryError\<close>. It also fails where \<^verbatim>\<open>exists()\<close> raises (a name of 256
  characters) and where the system refuses the removal of an existing file.
\<close>

theorem delete_file_on_directory_raises:
  "is_dir fs_move (Path ''a/b'') = Inr True \<and>
   exists fs_move (Path ''a/b'') = Inr True \<and>
   fst (delete_file ''a/b'' fs_move) =
     Inl (IsADirectoryError (''[Errno 21] Is a directory: '' @ quoted [''a'', ''b''])) \<and>
   is_dir (snd (delete_file ''a/b'' fs_move)) (Path ''a/b'') = Inr True \<and>
   fst (delete_file long_name fs_move) =
     Inl (OSError (''[Errno 36] File name too long: '' @ quoted [long_name])) \<and>
   exists fs_read_only (Path ''a/b/file.txt'') = Inr True \<and>
   fst (delete_file ''a/b/file.txt'' fs_read_only) =
     Inl (PermissionError
           (''[Errno 13] Permission denied: '' @ quoted [''a'', ''b'', ''file.txt''])) \<and>
   is_file (snd (delete_file ''a/b/file.txt'' fs_read_only)) (Path ''a/b/file.txt'') = Inr True"
  by code_simp

text \<open>
  C3, amended. What \<^verbatim>\<open>delete_file\<close> does is decided by the lookup of the path. If the
  lookup fails with an error that pathlib reads as absence, the call returns false and
  changes nothing; if it fails otherwise, the call raises the exception of that error. If
  the path is found and the system refuses the removal, the call raises the exception of
  the refusal; otherwise, if the path is a directory and not a symbolic link, it raises
  \<^verbatim>\<open>IsADirectoryError\<close>; otherwise the entry is removed (a symbolic link to a directory
  included) and the call returns true. So true is returned only for a path that existed
  and no longer exists afterwards, no other entry being touched; false only for a path
  that did not exist; and a call that raises changes nothing.
\<close>

theorem delete_file_outcomes:
  "delete_file path fs =
     (case stat fs (Path path) of
        Inl e \<Rightarrow>
          (if ignore_error e then (Inr False, fs) else (Inl (os_error e (Path path)), fs))
      | Inr n \<Rightarrow>
          (case write_denied fs (Path path) of
             Some d \<Rightarrow> (Inl (os_error (errno_of d) (Path path)), fs)
           | None \<Rightarrow>
               (if n = Dir \<and> \<not> islink fs (Path path)
                then (Inl (os_error EISDIR (Path path)), fs)
                else (Inr True,
                      fs\<lparr>entries := (entries fs)(Path path := None),
                         islink := (islink fs)(Path path := False)\<rparr>)))) \<and>
   (\<forall>fs'. delete_file path fs = (Inr True, fs') \<longrightarrow>
      exists fs (Path path) = Inr True \<and> exists fs' (Path path) = Inr False \<and>
      (\<forall>q. q \<noteq> Path path \<longrightarrow> entries fs' q = entries fs q)) \<and>
   (\<forall>e fs'. delete_file path fs = (Inl e, fs') \<longrightarrow> fs' = fs) \<and>
   (\<forall>fs'. delete_file path fs = (Inr False, fs') \<longrightarrow>
      fs' = fs \<and> exists fs (Path path) = Inr False)"
proof (intro conjI allI impI)
  show "delete_file path fs =
     (case stat fs (Path path) of
        Inl e \<Rightarrow>
          (if ignore_error e then (Inr False, fs) else (Inl (os_error e (Path path)), fs))
      | Inr n \<Rightarrow>
          (case write_denied fs (Path path) of
             Some d \<Rightarrow> (Inl (os_error (errno_of d) (Path path)), fs)
           | None \<Rightarrow>
               (if n = Dir \<and> \<not> islink fs (Path path)
                then (Inl (os_error EISDIR (Path path)), fs)
                else (Inr True,
                      fs\<lparr>entries := (entries fs)(Path path := None),
                         islink := (islink fs)(Path path := False)\<rparr>))))"
    by (rule delete_file_eq)
next
  fix fs'
  assume d: "delete_file path fs = (Inr True, fs')"
  then obtain n where n: "stat fs (Path path) = Inr n"
    and fs': "fs' = fs\<lparr>entries := (entries fs)(Path path := None),
                       islink := (islink fs)(Path path := False)\<rparr>"
    by (auto simp: delete_file_eq split: sum.splits option.splits if_splits)
  from n show "exists fs (Path path) = Inr True" by (simp add: exists_def)
  from stat_removed [OF n] fs' show "exists fs' (Path path) = Inr False"
    by (simp add: exists_def ignore_error_def)
  fix q
  assume "q \<noteq> Path path"
  with fs' show "entries fs' q = entries fs q" by simp
next
  fix e fs'
  assume "delete_file path fs = (Inl e, fs')"
  then show "fs' = fs"
    by (auto simp: delete_file_eq split: sum.splits option.splits if_splits)
next
  fix fs'
  assume "delete_file path fs = (Inr False, fs')"
  then show "fs' = fs"
    by (auto simp: delete_file_eq split: sum.splits option.splits if_splits)
next
  fix fs'
  assume "delete_file path fs = (Inr False, fs')"
  then show "exists fs (Path path) = Inr False"
    by (auto simp: delete_file_eq exists_def split: sum.splits option.splits if_splits)
qed

theorem delete_file_outcomes_witness:
  "exists fs_move (Path ''a/b/file.txt'') = Inr True \<and>
   fst (delete_file ''a/b/file.txt'' fs_move) = Inr True \<and>
   exists (snd (delete_file ''a/b/file.txt'' fs_move)) (Path ''a/b/file.txt'') = Inr False \<and>
   entries (snd (delete_file ''a/b/file.txt'' fs_move)) [''taken''] =
     entries fs_move [''taken''] \<and>
   fst (delete_file ''missing.txt'' fs_move) = Inr False \<and>
   snd (delete_file ''missing.txt'' fs_move) = fs_move \<and>
   exists fs_move (Path ''missing.txt'') = Inr False \<and>
   fst (delete_file ''a/b'' fs_move) = Inl (os_error EISDIR (Path ''a/b'')) \<and>
   snd (delete_file ''a/b'' fs_move) = fs_move \<and>
   fst (delete_file long_name fs_move) = Inl (os_error ENAMETOOLONG (Path long_name)) \<and>
   snd (delete_file long_name fs_move) = fs_move"
proof -
  note T = delete_file_outcomes [of "''a/b/file.txt''" fs_move]
  note M = delete_file_outcomes [of "''missing.txt''" fs_move]
  note D = delete_file_outcomes [of "''a/b''" fs_move]
  note L = delete_file_outcomes [of long_name fs_move]
  have t1: "fst (delete_file ''a/b/file.txt'' fs_move) = Inr True" by code_simp
  then have t2: "delete_file ''a/b/file.txt'' fs_move =
                   (Inr True, snd (delete_file ''a/b/file.txt'' fs_move))"
    by (metis prod.collapse)
  have ne: "[''taken''] \<noteq> Path ''a/b/file.txt''" by code_simp
  from T t2 have t3: "exists fs_move (Path ''a/b/file.txt'') = Inr True"
    and t4: "exists (snd (delete_file ''a/b/file.txt'' fs_move)) (Path ''a/b/file.txt'') = Inr False"
    and t5: "\<forall>q. q \<noteq> Path ''a/b/file.txt'' \<longrightarrow>
               entries (snd (delete_file ''a/b/file.txt'' fs_move)) q = entries fs_move q"
    by blast+
  from t5 ne have t6: "entries (snd (delete_file ''a/b/file.txt'' fs_move)) [''taken''] =
     entries fs_move [''taken'']" by blast
  have m1: "fst (delete_file ''missing.txt'' fs_move) = Inr False" by code_simp
  then have m2: "delete_file ''missing.txt'' fs_move =
                   (Inr False, snd (delete_file ''missing.txt'' fs_move))"
    by (metis prod.collapse)
  from M m2 have m3: "snd (delete_file ''missing.txt'' fs_move) = fs_move"
    and m4: "exists fs_move (Path ''missing.txt'') = Inr False"
    by blast+
  have d1: "fst (delete_file ''a/b'' fs_move) = Inl (os_error EISDIR (Path ''a/b''))"
    by code_simp
  then have d2: "delete_file ''a/b'' fs_move =
                   (Inl (os_error EISDIR (Path ''a/b'')), snd (delete_file ''a/b'' fs_move))"
    by (metis prod.collapse)
  from D d2 have d3: "snd (delete_file ''a/b'' fs_move) = fs_move" by blast
  have l1: "fst (delete_file long_name fs_move) = Inl (os_error ENAMETOOLONG (Path long_name))"
    by code_simp
  then have l2: "delete_file long_name fs_move =
     (Inl (os_error ENAMETOOLONG (Path long_name)), snd (delete_file long_name fs_move))"
    by (metis prod.collapse)
  from L l2 have l3: "snd (delete_file long_name fs_move) = fs_move" by blast
  from t1 t3 t4 t6 m1 m3 m4 d1 d3 l1 l3 show ?thesis by blast
qed

end
